theory Spec2Isabelle
  imports Complex_Main "HOL-Library.Log_Nat" "HOL-Library.AList"
begin

section \<open>Python values\<close>

text \<open>
  The endpoint of \<^verbatim>\<open>placement_test/api/quiz_results.py\<close> works on what Python's
  \<^verbatim>\<open>json\<close> module produces: \<^verbatim>\<open>None\<close>, booleans, unbounded integers, floats, strings,
  lists and dictionaries with string keys. A dictionary is an association list in
  insertion order. A finite float is given by its exact value; the two zeros are not
  told apart. A string is a list of characters below 256: the strings of Python whose
  code points are all below U+0100. An integer is one that \<^verbatim>\<open>json.loads\<close> and \<^verbatim>\<open>int\<close> give,
  of 4300 digits at most, so that writing it out never fails.
\<close>

datatype pyfloat = Finite rat | PosInf | NegInf | NaN

datatype pyval =
    PNone
  | PBool bool
  | PInt int
  | PFloat pyfloat
  | PStr string
  | PList "pyval list"
  | PDict "(string \<times> pyval) list"

text \<open>The exceptions that occur; \<open>StoreError\<close> is whatever a failing database call raises.\<close>

datatype py_exn =
  TypeError | ValueError | OverflowError | AttributeError | RecursionError | StoreError

text \<open>Truth value of an object, as \<^verbatim>\<open>not x\<close>, \<^verbatim>\<open>if x\<close> and \<^verbatim>\<open>x or y\<close> test it.\<close>

fun truthy :: "pyval \<Rightarrow> bool" where
  "truthy PNone = False"
| "truthy (PBool b) = b"
| "truthy (PInt n) = (n \<noteq> 0)"
| "truthy (PFloat f) = (f \<noteq> Finite 0)"
| "truthy (PStr s) = (s \<noteq> [])"
| "truthy (PList xs) = (xs \<noteq> [])"
| "truthy (PDict kvs) = (kvs \<noteq> [])"

text \<open>\<^verbatim>\<open>x or d\<close>\<close>

definition py_or :: "pyval \<Rightarrow> pyval \<Rightarrow> pyval" where
  "py_or x d = (if truthy x then x else d)"

text \<open>\<^verbatim>\<open>d.get(k)\<close> on a dictionary: \<^verbatim>\<open>None\<close> when the key is absent.\<close>

definition dict_get :: "(string \<times> pyval) list \<Rightarrow> string \<Rightarrow> pyval" where
  "dict_get d k = (case map_of d k of None \<Rightarrow> PNone | Some v \<Rightarrow> v)"

text \<open>\<^verbatim>\<open>x.get(k)\<close> on any object: only a dictionary has the method.\<close>

fun py_get :: "pyval \<Rightarrow> string \<Rightarrow> py_exn + pyval" where
  "py_get (PDict d) k = Inr (dict_get d k)"
| "py_get _ k = Inl AttributeError"

text \<open>\<^verbatim>\<open>value in (None, "", "null")\<close> and \<^verbatim>\<open>candidate in (None, "")\<close>\<close>

definition is_absent :: "pyval \<Rightarrow> bool" where
  "is_absent v = (v = PNone \<or> v = PStr [] \<or> v = PStr ''null'')"

definition is_empty :: "pyval \<Rightarrow> bool" where
  "is_empty v = (v = PNone \<or> v = PStr [])"

section \<open>The built-in conversions\<close>

text \<open>
  \<^verbatim>\<open>int(s)\<close> on a string, base ten: white space around, an optional sign, then digits,
  where single underscores may stand between digits. Anything else is a
  \<^verbatim>\<open>ValueError\<close>, here \<open>None\<close>. The white space that \<^verbatim>\<open>int\<close> takes away is, among the
  characters below 256, the space, the characters 9 to 13, and U+0085 and U+00A0; the
  separators 28 to 31 stay and make the text invalid. More than 4300 digits are a
  \<^verbatim>\<open>ValueError\<close> as well (the limit of Python 3.11 on the conversion of integers).
\<close>

definition is_space :: "char \<Rightarrow> bool" where
  "is_space c = (c \<in> set [CHR '' '', CHR 0x09, CHR 0x0A, CHR 0x0B, CHR 0x0C, CHR 0x0D,
                            CHR 0x85, CHR 0xA0])"

definition is_digit :: "char \<Rightarrow> bool" where
  "is_digit c = (c \<in> set ''0123456789'')"

definition digit_val :: "char \<Rightarrow> int" where
  "digit_val c = int (of_char c) - 48"

definition strip :: "string \<Rightarrow> string" where
  "strip s = rev (dropWhile is_space (rev (dropWhile is_space s)))"

text \<open>The digits after a first digit, \<open>acc\<close> the value read so far.\<close>

fun more_digits :: "int \<Rightarrow> string \<Rightarrow> int option" where
  "more_digits acc [] = Some acc"
| "more_digits acc [c] = (if is_digit c then Some (acc * 10 + digit_val c) else None)"
| "more_digits acc (c # d # cs) =
     (if is_digit c then more_digits (acc * 10 + digit_val c) (d # cs)
      else if c = CHR ''_'' \<and> is_digit d then more_digits (acc * 10 + digit_val d) cs
      else None)"

definition digits :: "string \<Rightarrow> int option" where
  "digits s =
     (if 4300 < length (filter is_digit s) then None
      else case s of
             [] \<Rightarrow> None
           | c # cs \<Rightarrow> if is_digit c then more_digits (digit_val c) cs else None)"

definition int_of_str :: "string \<Rightarrow> int option" where
  "int_of_str s =
     (case strip s of
        [] \<Rightarrow> None
      | c # cs \<Rightarrow>
          if c = CHR ''-'' then map_option uminus (digits cs)
          else if c = CHR ''+'' then digits cs
          else digits (c # cs))"

text \<open>\<^verbatim>\<open>int(x)\<close> for a float: towards zero.\<close>

definition trunc :: "rat \<Rightarrow> int" where
  "trunc q = (if 0 \<le> q then \<lfloor>q\<rfloor> else \<lceil>q\<rceil>)"

text \<open>
  \<^verbatim>\<open>int(value)\<close>. A float that is not a number is a \<^verbatim>\<open>ValueError\<close>, an infinite one an
  \<^verbatim>\<open>OverflowError\<close>; \<^verbatim>\<open>None\<close>, a list and a dictionary are a \<^verbatim>\<open>TypeError\<close>.
\<close>

fun py_int :: "pyval \<Rightarrow> py_exn + int" where
  "py_int (PBool b) = Inr (if b then 1 else 0)"
| "py_int (PInt n) = Inr n"
| "py_int (PFloat (Finite q)) = Inr (trunc q)"
| "py_int (PFloat NaN) = Inl ValueError"
| "py_int (PFloat PosInf) = Inl OverflowError"
| "py_int (PFloat NegInf) = Inl OverflowError"
| "py_int (PStr s) = (case int_of_str s of Some n \<Rightarrow> Inr n | None \<Rightarrow> Inl ValueError)"
| "py_int PNone = Inl TypeError"
| "py_int (PList xs) = Inl TypeError"
| "py_int (PDict d) = Inl TypeError"

text \<open>
  \<^verbatim>\<open>float(n)\<close> for an integer: the nearest double, ties to the even significand of 53
  bits; an \<^verbatim>\<open>OverflowError\<close> when that is beyond the largest double.
\<close>

definition double_of_int :: "int \<Rightarrow> int" where
  "double_of_int n =
     (let a = \<bar>n\<bar>; k = bitlen a - 53 in
      if k \<le> 0 then n
      else let q = a div 2 ^ nat k; r = a mod 2 ^ nat k; h = 2 ^ nat (k - 1);
               q' = (if h < r \<or> (r = h \<and> odd q) then q + 1 else q)
           in sgn n * (q' * 2 ^ nat k))"

definition float_of_int :: "int \<Rightarrow> py_exn + pyfloat" where
  "float_of_int n =
     (let d = double_of_int n in
      if 2 ^ 1024 \<le> \<bar>d\<bar> then Inl OverflowError else Inr (Finite (of_int d)))"

text \<open>Decimal digits of a number, as \<^verbatim>\<open>str(n)\<close> prints an integer.\<close>

definition digit_char :: "nat \<Rightarrow> char" where
  "digit_char d = char_of (48 + d)"

fun show_nat :: "nat \<Rightarrow> string" where
  "show_nat n = (if n < 10 then [digit_char n] else show_nat (n div 10) @ [digit_char (n mod 10)])"

declare show_nat.simps [simp del]

definition show_int :: "int \<Rightarrow> string" where
  "show_int i = (if i < 0 then CHR ''-'' # show_nat (nat (- i)) else show_nat (nat i))"

text \<open>A \<^verbatim>\<open>datetime\<close> object, the fields that \<^verbatim>\<open>strftime\<close> reads here.\<close>

record datetime =
  year :: nat
  month :: nat
  day :: nat
  hour :: nat
  minute :: nat
  second :: nat

definition zpad :: "nat \<Rightarrow> string \<Rightarrow> string" where
  "zpad w s = replicate (w - length s) CHR ''0'' @ s"

text \<open>
  \<^verbatim>\<open>dt.strftime("%Y-%m-%d %H:%M:%S")\<close>: the year as it is, without leading zeros (as on
  Linux), each other field with two digits.
\<close>

definition strftime :: "datetime \<Rightarrow> string" where
  "strftime dt =
     show_nat (year dt) @ ''-'' @ zpad 2 (show_nat (month dt)) @ ''-'' @
     zpad 2 (show_nat (day dt)) @ '' '' @ zpad 2 (show_nat (hour dt)) @ '':'' @
     zpad 2 (show_nat (minute dt)) @ '':'' @ zpad 2 (show_nat (second dt))"

text \<open>
  What the endpoint takes from libraries and is not written out here:
  \<^item> \<open>float_of_str\<close>: \<^verbatim>\<open>float(s)\<close> on a string, \<open>None\<close> for its \<^verbatim>\<open>ValueError\<close>;
  \<^item> \<open>repr_float\<close>: the text of a float, as \<^verbatim>\<open>str\<close> and \<^verbatim>\<open>json.dumps\<close> write a finite one;
  \<^item> \<open>repr_container\<close>: \<^verbatim>\<open>str(x)\<close> of a list or a dictionary;
  \<^item> \<open>get_datetime\<close>: \<^verbatim>\<open>frappe.utils.get_datetime\<close>, which raises, returns \<^verbatim>\<open>None\<close> or
    returns a \<^verbatim>\<open>datetime\<close>;
  \<^item> \<open>json_loads\<close>: \<^verbatim>\<open>json.loads\<close> on a string, which returns a value or raises: a
    \<^verbatim>\<open>ValueError\<close> for a text that is not JSON, a \<^verbatim>\<open>RecursionError\<close> for a text nested
    deeper than the interpreter goes.
\<close>

record pylib =
  float_of_str :: "string \<Rightarrow> pyfloat option"
  repr_float :: "pyfloat \<Rightarrow> string"
  repr_container :: "pyval \<Rightarrow> string"
  get_datetime :: "pyval \<Rightarrow> py_exn + datetime option"
  json_loads :: "string \<Rightarrow> py_exn + pyval"

text \<open>\<^verbatim>\<open>float(value)\<close>\<close>

fun py_float :: "pylib \<Rightarrow> pyval \<Rightarrow> py_exn + pyfloat" where
  "py_float L (PBool b) = Inr (Finite (if b then 1 else 0))"
| "py_float L (PInt n) = float_of_int n"
| "py_float L (PFloat f) = Inr f"
| "py_float L (PStr s) = (case float_of_str L s of Some f \<Rightarrow> Inr f | None \<Rightarrow> Inl ValueError)"
| "py_float L PNone = Inl TypeError"
| "py_float L (PList xs) = Inl TypeError"
| "py_float L (PDict d) = Inl TypeError"

text \<open>\<^verbatim>\<open>str(value)\<close>\<close>

fun py_str :: "pylib \<Rightarrow> pyval \<Rightarrow> string" where
  "py_str L PNone = ''None''"
| "py_str L (PBool b) = (if b then ''True'' else ''False'')"
| "py_str L (PInt n) = show_int n"
| "py_str L (PFloat f) = repr_float L f"
| "py_str L (PStr s) = s"
| "py_str L (PList xs) = repr_container L (PList xs)"
| "py_str L (PDict d) = repr_container L (PDict d)"

section \<open>Coercions of the endpoint\<close>

text \<open>
  \<^verbatim>\<open>_to_int\<close>: absent values give \<^verbatim>\<open>None\<close>; \<^verbatim>\<open>except (TypeError, ValueError)\<close> turns
  these two exceptions into \<^verbatim>\<open>None\<close> and lets every other one pass.
\<close>

definition to_int :: "pyval \<Rightarrow> py_exn + int option" where
  "to_int v =
     (if is_absent v then Inr None
      else case py_int v of
             Inr n \<Rightarrow> Inr (Some n)
           | Inl TypeError \<Rightarrow> Inr None
           | Inl ValueError \<Rightarrow> Inr None
           | Inl e \<Rightarrow> Inl e)"


text \<open>\<^verbatim>\<open>_to_float\<close>, with the same \<^verbatim>\<open>except (TypeError, ValueError)\<close>.\<close>

definition to_float :: "pylib \<Rightarrow> pyval \<Rightarrow> py_exn + pyfloat option" where
  "to_float L v =
     (if is_absent v then Inr None
      else case py_float L v of
             Inr f \<Rightarrow> Inr (Some f)
           | Inl TypeError \<Rightarrow> Inr None
           | Inl ValueError \<Rightarrow> Inr None
           | Inl e \<Rightarrow> Inl e)"

text \<open>
  \<^verbatim>\<open>_to_datetime\<close>: \<^verbatim>\<open>except Exception\<close> turns every exception into \<^verbatim>\<open>None\<close>, also the
  \<^verbatim>\<open>AttributeError\<close> of \<^verbatim>\<open>None.strftime\<close> when \<^verbatim>\<open>get_datetime\<close> returns \<^verbatim>\<open>None\<close>.
\<close>

definition to_datetime :: "pylib \<Rightarrow> pyval \<Rightarrow> string option" where
  "to_datetime L v =
     (if \<not> truthy v then None
      else case get_datetime L v of
             Inr (Some dt) \<Rightarrow> Some (strftime dt)
           | Inr None \<Rightarrow> None
           | Inl e \<Rightarrow> None)"

section \<open>Custom fields\<close>

text \<open>
  The loop over \<^verbatim>\<open>fields.values()\<close>: the first value that is a dictionary and whose
  \<^verbatim>\<open>label\<close> equals the label wanted.
\<close>

fun find_label :: "string \<Rightarrow> pyval list \<Rightarrow> pyval option" where
  "find_label label [] = None"
| "find_label label (PDict d # vs) =
     (if dict_get d ''label'' = PStr label then Some (PDict d) else find_label label vs)"
| "find_label label (v # vs) = find_label label vs"

text \<open>
  \<^verbatim>\<open>item = fields.get(slug)\<close>, replaced by the loop's result only when it is falsy and
  the loop finds an entry.
\<close>

definition select_item :: "(string \<times> pyval) list \<Rightarrow> string \<Rightarrow> string \<Rightarrow> pyval" where
  "select_item flds slug label =
     (let item = dict_get flds slug in
      if \<not> truthy item then
        (case find_label label (map snd flds) of Some fv \<Rightarrow> fv | None \<Rightarrow> item)
      else item)"

text \<open>\<^verbatim>\<open>candidate = d.get(key)\<close>, returned as a string unless it is \<^verbatim>\<open>None\<close> or empty.\<close>

definition candidate_of :: "pylib \<Rightarrow> (string \<times> pyval) list \<Rightarrow> string \<Rightarrow> string option" where
  "candidate_of L d key =
     (let candidate = dict_get d key in
      if \<not> is_empty candidate then Some (py_str L candidate) else None)"

text \<open>The first block of \<^verbatim>\<open>_extract_custom_value\<close>: the \<^verbatim>\<open>fields\<close> mapping.\<close>

definition from_fields ::
  "pylib \<Rightarrow> (string \<times> pyval) list \<Rightarrow> string \<Rightarrow> string \<Rightarrow> string option" where
  "from_fields L payload slug label =
     (case py_or (dict_get payload ''fields'') (PDict []) of
        PDict flds \<Rightarrow>
          (case select_item flds slug label of
             PDict item \<Rightarrow> candidate_of L item ''value''
           | _ \<Rightarrow> None)
      | _ \<Rightarrow> None)"

text \<open>The loop over the \<^verbatim>\<open>custom_fields\<close> list.\<close>

fun scan_custom_fields :: "pylib \<Rightarrow> string \<Rightarrow> string \<Rightarrow> pyval list \<Rightarrow> string option" where
  "scan_custom_fields L slug label [] = None"
| "scan_custom_fields L slug label (PDict entry # es) =
     (if dict_get entry ''slug'' = PStr slug \<or> dict_get entry ''label'' = PStr label then
        (case candidate_of L entry ''value'' of
           Some s \<Rightarrow> Some s
         | None \<Rightarrow> scan_custom_fields L slug label es)
      else scan_custom_fields L slug label es)"
| "scan_custom_fields L slug label (e # es) = scan_custom_fields L slug label es"

definition from_custom_fields ::
  "pylib \<Rightarrow> (string \<times> pyval) list \<Rightarrow> string \<Rightarrow> string \<Rightarrow> string option" where
  "from_custom_fields L payload slug label =
     (case py_or (dict_get payload ''custom_fields'') (PList []) of
        PList es \<Rightarrow> scan_custom_fields L slug label es
      | _ \<Rightarrow> None)"

text \<open>The last block: \<^verbatim>\<open>custom_field_values[slug]\<close>.\<close>

definition from_custom_field_values ::
  "pylib \<Rightarrow> (string \<times> pyval) list \<Rightarrow> string \<Rightarrow> string option" where
  "from_custom_field_values L payload slug =
     (case py_or (dict_get payload ''custom_field_values'') (PDict []) of
        PDict d \<Rightarrow> candidate_of L d slug
      | _ \<Rightarrow> None)"

text \<open>\<^verbatim>\<open>_extract_custom_value\<close>: the three blocks in their order.\<close>

definition extract_custom_value ::
  "pylib \<Rightarrow> (string \<times> pyval) list \<Rightarrow> string \<Rightarrow> string \<Rightarrow> string option" where
  "extract_custom_value L payload slug label =
     (case from_fields L payload slug label of
        Some s \<Rightarrow> Some s
      | None \<Rightarrow>
          (case from_custom_fields L payload slug label of
             Some s \<Rightarrow> Some s
           | None \<Rightarrow> from_custom_field_values L payload slug))"

section \<open>Serialisation\<close>

text \<open>
  \<^verbatim>\<open>json.dumps(obj, ensure_ascii=ea, separators=seps)\<close>. In a string the quote, the
  backslash and the control characters are escaped, with \<^verbatim>\<open>ensure_ascii\<close> also every
  character outside the printable ASCII range. A float that is not finite is written
  \<^verbatim>\<open>NaN\<close>, \<^verbatim>\<open>Infinity\<close> or \<^verbatim>\<open>-Infinity\<close> (\<^verbatim>\<open>allow_nan\<close> is left at its default).
\<close>

definition dquote :: char where
  "dquote = CHR 0x22"

definition bslash :: char where
  "bslash = CHR 0x5C"

definition hex_char :: "nat \<Rightarrow> char" where
  "hex_char d = (if d < 10 then char_of (48 + d) else char_of (87 + d))"

definition escape_char :: "bool \<Rightarrow> char \<Rightarrow> string" where
  "escape_char ea c =
     (if c = dquote then [bslash, dquote]
      else if c = bslash then [bslash, bslash]
      else if c = CHR 0x0A then [bslash, CHR ''n'']
      else if c = CHR 0x0D then [bslash, CHR ''r'']
      else if c = CHR 0x09 then [bslash, CHR ''t'']
      else if c = CHR 0x08 then [bslash, CHR ''b'']
      else if c = CHR 0x0C then [bslash, CHR ''f'']
      else if (of_char c :: nat) < 32 \<or> (ea \<and> 126 < (of_char c :: nat)) then
        [bslash, CHR ''u'', CHR ''0'', CHR ''0'',
         hex_char (of_char c div 16), hex_char (of_char c mod 16)]
      else [c])"

definition quote :: "bool \<Rightarrow> string \<Rightarrow> string" where
  "quote ea s = dquote # concat (map (escape_char ea) s) @ [dquote]"

definition dumps_float :: "pylib \<Rightarrow> pyfloat \<Rightarrow> string" where
  "dumps_float L f =
     (case f of NaN \<Rightarrow> ''NaN'' | PosInf \<Rightarrow> ''Infinity'' | NegInf \<Rightarrow> ''-Infinity''
      | Finite q \<Rightarrow> repr_float L (Finite q))"

fun json_dumps :: "pylib \<Rightarrow> bool \<Rightarrow> string \<times> string \<Rightarrow> pyval \<Rightarrow> string"
  and dumps_list :: "pylib \<Rightarrow> bool \<Rightarrow> string \<times> string \<Rightarrow> pyval list \<Rightarrow> string"
  and dumps_items :: "pylib \<Rightarrow> bool \<Rightarrow> string \<times> string \<Rightarrow> (string \<times> pyval) list \<Rightarrow> string"
where
  "json_dumps L ea seps PNone = ''null''"
| "json_dumps L ea seps (PBool b) = (if b then ''true'' else ''false'')"
| "json_dumps L ea seps (PInt n) = show_int n"
| "json_dumps L ea seps (PFloat f) = dumps_float L f"
| "json_dumps L ea seps (PStr s) = quote ea s"
| "json_dumps L ea seps (PList xs) = ''['' @ dumps_list L ea seps xs @ '']''"
| "json_dumps L ea seps (PDict kvs) = ''{'' @ dumps_items L ea seps kvs @ ''}''"
| "dumps_list L ea seps [] = []"
| "dumps_list L ea seps [x] = json_dumps L ea seps x"
| "dumps_list L ea seps (x # y # xs) =
     json_dumps L ea seps x @ fst seps @ dumps_list L ea seps (y # xs)"
| "dumps_items L ea seps [] = []"
| "dumps_items L ea seps [(k, v)] = quote ea k @ snd seps @ json_dumps L ea seps v"
| "dumps_items L ea seps ((k, v) # kv # kvs) =
     quote ea k @ snd seps @ json_dumps L ea seps v @ fst seps @ dumps_items L ea seps (kv # kvs)"

section \<open>The request\<close>

text \<open>
  What the framework hands to the endpoint: the outcome of
  \<^verbatim>\<open>frappe.request.get_json()\<close>, which may raise, and \<^verbatim>\<open>frappe.form_dict\<close>.
\<close>

record request =
  get_json :: "py_exn + pyval"
  form_dict :: pyval

text \<open>
  \<^verbatim>\<open>json.loads\<close> inside \<^verbatim>\<open>try ... except (TypeError, ValueError): return {}\<close>.
\<close>

definition loads_or_empty :: "pylib \<Rightarrow> string \<Rightarrow> py_exn + pyval" where
  "loads_or_empty L s =
     (case json_loads L s of
        Inr v \<Rightarrow> Inr v
      | Inl TypeError \<Rightarrow> Inr (PDict [])
      | Inl ValueError \<Rightarrow> Inr (PDict [])
      | Inl e \<Rightarrow> Inl e)"

text \<open>The value of a form with exactly one entry, when that value is a string.\<close>

fun sole_string :: "(string \<times> pyval) list \<Rightarrow> string option" where
  "sole_string [(k, PStr s)] = Some s"
| "sole_string d = None"

text \<open>The second half of \<^verbatim>\<open>_load_payload\<close>, on \<^verbatim>\<open>frappe.form_dict\<close>.\<close>

definition from_form_dict :: "pylib \<Rightarrow> pyval \<Rightarrow> py_exn + pyval" where
  "from_form_dict L fd =
     (if truthy fd then
        (case fd of
           PDict d \<Rightarrow>
             (case sole_string d of
                Some s \<Rightarrow> loads_or_empty L s
              | None \<Rightarrow> loads_or_empty L (json_dumps L True ('', '', '': '') fd))
         | _ \<Rightarrow> Inr (PDict []))
      else Inr (PDict []))"

text \<open>
  \<^verbatim>\<open>_load_payload\<close>: the JSON body when it parses to something truthy, else the form. What
  \<^verbatim>\<open>get_json\<close> raises is caught by \<^verbatim>\<open>except Exception\<close>; what \<^verbatim>\<open>json.loads\<close> raises on the
  form is caught only if it is a \<^verbatim>\<open>TypeError\<close> or a \<^verbatim>\<open>ValueError\<close>.
\<close>

definition load_payload :: "pylib \<Rightarrow> request \<Rightarrow> py_exn + pyval" where
  "load_payload L req =
     (case get_json req of
        Inr data \<Rightarrow> if truthy data then Inr data else from_form_dict L (form_dict req)
      | Inl e \<Rightarrow> from_form_dict L (form_dict req))"

section \<open>The store\<close>

text \<open>
  Modelled from the spec: the document type \<^verbatim>\<open>Placement Test Result\<close>, whose declaration
  (the list of its fields, the rule that names a new record) is not among the sources.
  A record maps field names to values, as the persisted entity of the specification
  does. The name of a record is its position in the list of records, so that a new record
  gets a name that no other has. The database has the committed records and those of the
  running transaction. Any call to the database may fail: \<open>fails\<close> says which do.
\<close>

type_synonym doc = "string \<rightharpoonup> pyval"

record store =
  committed :: "doc list"
  working :: "doc list"
  error_log :: "string list"

datatype db_op = GetAll | GetDoc | NewDoc | Update | Save | Insert | Commit

definition docname :: "nat \<Rightarrow> string" where
  "docname i = show_nat i"

fun first_index :: "('a \<Rightarrow> bool) \<Rightarrow> 'a list \<Rightarrow> nat option" where
  "first_index P [] = None"
| "first_index P (x # xs) = (if P x then Some 0 else map_option Suc (first_index P xs))"

text \<open>
  \<^verbatim>\<open>frappe.get_all(DOC_TYPE, filters={"result_id": result_id}, pluck="name", limit=1)\<close>:
  the name of a record with this \<^verbatim>\<open>result_id\<close>, if there is one; the first in the list,
  should there be several.
\<close>

definition has_result_id :: "int \<Rightarrow> doc \<Rightarrow> bool" where
  "has_result_id rid d = (d ''result_id'' = Some (PInt rid))"

definition get_all :: "int \<Rightarrow> doc list \<Rightarrow> nat option" where
  "get_all rid docs = first_index (has_result_id rid) docs"

text \<open>\<^verbatim>\<open>{k: v for k, v in doc_values.items() if v is not None}\<close>\<close>

definition non_null :: "(string \<times> pyval) list \<Rightarrow> (string \<times> pyval) list" where
  "non_null vals = filter (\<lambda>(k, v). v \<noteq> PNone) vals"

text \<open>\<^verbatim>\<open>doc.update(d)\<close>\<close>

definition doc_update :: "doc \<Rightarrow> (string \<times> pyval) list \<Rightarrow> doc" where
  "doc_update d vals = d ++ map_of vals"

section \<open>The endpoint\<close>

definition error_response :: "string \<Rightarrow> pyval" where
  "error_response m = PDict [(''status'', PStr ''error''), (''message'', PStr m)]"

definition success_response :: "string \<Rightarrow> int \<Rightarrow> pyval" where
  "success_response name rid =
     PDict [(''status'', PStr ''success''), (''docname'', PStr name), (''result_id'', PInt rid)]"

definition missing_payload :: pyval where
  "missing_payload = error_response ''Missing payload.''"

definition required_fields :: pyval where
  "required_fields = error_response ''Both result_id and quiz_title are required.''"

definition unexpected_error :: pyval where
  "unexpected_error = error_response ''An unexpected error occurred.''"

definition bindE :: "py_exn + 'a \<Rightarrow> ('a \<Rightarrow> py_exn + 'b) \<Rightarrow> py_exn + 'b" where
  "bindE m f = (case m of Inl e \<Rightarrow> Inl e | Inr x \<Rightarrow> f x)"

definition opt_int :: "int option \<Rightarrow> pyval" where
  "opt_int x = (case x of None \<Rightarrow> PNone | Some n \<Rightarrow> PInt n)"

definition opt_float :: "pyfloat option \<Rightarrow> pyval" where
  "opt_float x = (case x of None \<Rightarrow> PNone | Some f \<Rightarrow> PFloat f)"

definition opt_str :: "string option \<Rightarrow> pyval" where
  "opt_str x = (case x of None \<Rightarrow> PNone | Some s \<Rightarrow> PStr s)"

text \<open>
  The dictionary \<^verbatim>\<open>doc_values\<close>, its entries evaluated in the order written: the first
  exception ends the evaluation.
\<close>

definition doc_values ::
  "pylib \<Rightarrow> (string \<times> pyval) list \<Rightarrow> int \<Rightarrow> pyval \<Rightarrow> py_exn + (string \<times> pyval) list" where
  "doc_values L payload result_id quiz_title =
     bindE (to_int (dict_get payload ''quiz_id'')) (\<lambda>quiz_id.
     bindE (to_float L (dict_get payload ''score_percentage'')) (\<lambda>score_percentage.
     bindE (to_float L (dict_get payload ''final_score'')) (\<lambda>final_score.
     bindE (to_float L (dict_get payload ''score_by'')) (\<lambda>score_by.
     bindE (to_float L (dict_get payload ''points'')) (\<lambda>points.
     bindE (to_int (dict_get payload ''duration_seconds'')) (\<lambda>duration_seconds.
     bindE (py_get (py_or (dict_get payload ''user'') (PDict [])) ''email'') (\<lambda>user_email.
     bindE (py_get (py_or (dict_get payload ''user'') (PDict [])) ''phone'') (\<lambda>user_phone.
     Inr [(''result_id'', PInt result_id),
          (''quiz_id'', opt_int quiz_id),
          (''quiz_title'', PStr (py_str L quiz_title)),
          (''score_percentage'', opt_float score_percentage),
          (''final_score'', opt_float final_score),
          (''score_by'', opt_float score_by),
          (''score_type'', dict_get payload ''score_type''),
          (''points'', opt_float points),
          (''duration_seconds'', opt_int duration_seconds),
          (''start_time'', opt_str (to_datetime L (dict_get payload ''start_date''))),
          (''end_time'', opt_str (to_datetime L (dict_get payload ''end_date''))),
          (''submitted_at'', opt_str (to_datetime L (dict_get payload ''submitted_at''))),
          (''student_name'',
             opt_str (extract_custom_value L payload ''quiz_attr_2'' ''Student's Name'')),
          (''student_id'',
             opt_str (extract_custom_value L payload ''quiz_attr_1'' ''Student's ID'')),
          (''tester_name'',
             opt_str (extract_custom_value L payload ''quiz_attr_6'' ''Tester's Name'')),
          (''user_email'', user_email),
          (''user_phone'', user_phone),
          (''user_ip'', dict_get payload ''user_ip''),
          (''integration_source'', dict_get payload ''integration''),
          (''raw_payload'', PStr (json_dumps L False ('','', '':'') (PDict payload)))
         ]))))))))"

text \<open>
  The body of the \<^verbatim>\<open>try\<close>: update the record found, or insert a new one. The result
  is the record's name and the new records of the transaction, or \<open>None\<close> when a call
  failed.
\<close>

definition write_doc ::
  "(db_op \<Rightarrow> bool) \<Rightarrow> nat option \<Rightarrow> (string \<times> pyval) list \<Rightarrow> doc list \<Rightarrow> (nat \<times> doc list) option"
where
  "write_doc fails existing vals docs =
     (case existing of
        Some i \<Rightarrow>
          if fails GetDoc \<or> fails Update \<or> fails Save then None
          else Some (i, docs[i := doc_update (docs ! i) (non_null vals)])
      | None \<Rightarrow>
          if fails NewDoc \<or> fails Update \<or> fails Insert then None
          else Some (length docs, docs @ [doc_update Map.empty (non_null vals)]))"

text \<open>
  From \<^verbatim>\<open>frappe.get_all\<close>, which stands before the \<^verbatim>\<open>try\<close>, to the end. In the handler
  \<^verbatim>\<open>frappe.db.rollback()\<close> gives up the transaction and \<^verbatim>\<open>frappe.log_error\<close> notes the
  failure.
\<close>

definition upsert ::
  "(db_op \<Rightarrow> bool) \<Rightarrow> int \<Rightarrow> (string \<times> pyval) list \<Rightarrow> store \<Rightarrow> (py_exn + pyval) \<times> store" where
  "upsert fails result_id vals s =
     (if fails GetAll then (Inl StoreError, s)
      else
        (case (case write_doc fails (get_all result_id (working s)) vals (working s) of
                 Some (i, docs) \<Rightarrow> if fails Commit then None else Some (i, docs)
               | None \<Rightarrow> None) of
           Some (i, docs) \<Rightarrow>
             (Inr (success_response (docname i) result_id),
              s\<lparr>committed := docs, working := docs\<rparr>)
         | None \<Rightarrow>
             (Inr unexpected_error,
              s\<lparr>working := committed s,
                error_log := ''Placement Test Result API Error'' # error_log s\<rparr>)))"

text \<open>
  \<^verbatim>\<open>submit_quiz_result\<close>. The result is what the call returns or the exception it
  raises, and the store it leaves.
\<close>

definition submit_quiz_result ::
  "pylib \<Rightarrow> (db_op \<Rightarrow> bool) \<Rightarrow> request \<Rightarrow> store \<Rightarrow> (py_exn + pyval) \<times> store" where
  "submit_quiz_result L fails req s =
     (case load_payload L req of
        Inl e \<Rightarrow> (Inl e, s)
      | Inr payload \<Rightarrow>
          if \<not> truthy payload then (Inr missing_payload, s)
          else
            (case payload of
               PDict p \<Rightarrow>
                 (case to_int (dict_get p ''result_id'') of
                    Inl e \<Rightarrow> (Inl e, s)
                  | Inr result_id \<Rightarrow>
                      let quiz_title = dict_get p ''quiz_title'' in
                      (case result_id of
                         None \<Rightarrow> (Inr required_fields, s)
                       | Some rid \<Rightarrow>
                           if rid = 0 \<or> \<not> truthy quiz_title then (Inr required_fields, s)
                           else
                             (case doc_values L p rid quiz_title of
                                Inl e \<Rightarrow> (Inl e, s)
                              | Inr vals \<Rightarrow> upsert fails rid vals s)))
             | _ \<Rightarrow> (Inl AttributeError, s)))"

section \<open>Custom fields: the candidates in their order\<close>

text \<open>
  The values that \<^verbatim>\<open>_extract_custom_value\<close> may return, written as a list in the order in
  which it looks at them; the function returns the first that is neither \<^verbatim>\<open>None\<close> nor
  empty, as a string.
  \<^item> From \<^verbatim>\<open>fields\<close>, one entry at most: \<^verbatim>\<open>fields[slug]\<close> when it is truthy; otherwise the
    first entry that is a dictionary with the label wanted. The entry gives its \<^verbatim>\<open>value\<close>
    if it is a dictionary, and nothing if not.
  \<^item> From \<^verbatim>\<open>custom_fields\<close>, the \<^verbatim>\<open>value\<close> of every dictionary with the slug or the label
    wanted, in the list's order.
  \<^item> From \<^verbatim>\<open>custom_field_values\<close>, the value under the slug.
\<close>

definition is_labelled :: "string \<Rightarrow> pyval \<Rightarrow> bool" where
  "is_labelled label v =
     (case v of PDict d \<Rightarrow> dict_get d ''label'' = PStr label | _ \<Rightarrow> False)"

definition is_custom_entry :: "string \<Rightarrow> string \<Rightarrow> pyval \<Rightarrow> bool" where
  "is_custom_entry slug label v =
     (case v of
        PDict d \<Rightarrow> dict_get d ''slug'' = PStr slug \<or> dict_get d ''label'' = PStr label
      | _ \<Rightarrow> False)"

definition value_of :: "pyval \<Rightarrow> pyval list" where
  "value_of v = (case v of PDict d \<Rightarrow> [dict_get d ''value''] | _ \<Rightarrow> [])"

definition label_candidates :: "(string \<times> pyval) list \<Rightarrow> string \<Rightarrow> pyval list" where
  "label_candidates flds label =
     (case filter (is_labelled label) (map snd flds) of v # _ \<Rightarrow> value_of v | [] \<Rightarrow> [])"

definition fields_candidates ::
  "(string \<times> pyval) list \<Rightarrow> string \<Rightarrow> string \<Rightarrow> pyval list" where
  "fields_candidates p slug label =
     (case dict_get p ''fields'' of
        PDict flds \<Rightarrow>
          if truthy (dict_get flds slug) then value_of (dict_get flds slug)
          else label_candidates flds label
      | _ \<Rightarrow> [])"

definition custom_fields_candidates ::
  "(string \<times> pyval) list \<Rightarrow> string \<Rightarrow> string \<Rightarrow> pyval list" where
  "custom_fields_candidates p slug label =
     (case dict_get p ''custom_fields'' of
        PList es \<Rightarrow> concat (map value_of (filter (is_custom_entry slug label) es))
      | _ \<Rightarrow> [])"

definition custom_field_values_candidates ::
  "(string \<times> pyval) list \<Rightarrow> string \<Rightarrow> pyval list" where
  "custom_field_values_candidates p slug =
     (case dict_get p ''custom_field_values'' of PDict d \<Rightarrow> [dict_get d slug] | _ \<Rightarrow> [])"

definition candidates :: "(string \<times> pyval) list \<Rightarrow> string \<Rightarrow> string \<Rightarrow> pyval list" where
  "candidates p slug label =
     fields_candidates p slug label @ custom_fields_candidates p slug label @
     custom_field_values_candidates p slug"

definition first_non_empty :: "pylib \<Rightarrow> pyval list \<Rightarrow> string option" where
  "first_non_empty L cs = map_option (py_str L) (find (\<lambda>c. \<not> is_empty c) cs)"

section \<open>Payload resolution: the three attempts\<close>

text \<open>
  The three ways to a payload, each written on its own, as \<^verbatim>\<open>_load_payload\<close> makes them:
  the request body parsed as JSON; the string that is the only value of the form, parsed
  as JSON; otherwise, for a form that is not empty, the whole form written out and read
  back. An attempt is not made, or raises, or gives a value. \<open>no_payload\<close> holds of an
  attempt that gives no payload: it is not made, it fails, or it gives a falsy value, such
  as an empty structure. \<open>caught\<close> holds of an attempt unless it raises something other
  than a \<^verbatim>\<open>TypeError\<close> or a \<^verbatim>\<open>ValueError\<close>.
\<close>

datatype attempt = NotTried | Raised py_exn | Gave pyval

definition loads_attempt :: "pylib \<Rightarrow> string \<Rightarrow> attempt" where
  "loads_attempt L s = (case json_loads L s of Inr v \<Rightarrow> Gave v | Inl e \<Rightarrow> Raised e)"

definition direct_json :: "request \<Rightarrow> attempt" where
  "direct_json req = (case get_json req of Inr v \<Rightarrow> Gave v | Inl e \<Rightarrow> Raised e)"

definition sole_field_json :: "pylib \<Rightarrow> request \<Rightarrow> attempt" where
  "sole_field_json L req =
     (case form_dict req of PDict [(k, PStr s)] \<Rightarrow> loads_attempt L s | _ \<Rightarrow> NotTried)"

definition whole_form :: "pylib \<Rightarrow> request \<Rightarrow> attempt" where
  "whole_form L req =
     (case form_dict req of
        PDict d \<Rightarrow>
          if d = [] \<or> sole_field_json L req \<noteq> NotTried then NotTried
          else loads_attempt L (json_dumps L True ('', '', '': '') (PDict d))
      | _ \<Rightarrow> NotTried)"

definition no_payload :: "attempt \<Rightarrow> bool" where
  "no_payload a = (case a of NotTried \<Rightarrow> True | Raised e \<Rightarrow> True | Gave v \<Rightarrow> \<not> truthy v)"

definition caught :: "attempt \<Rightarrow> bool" where
  "caught a = (case a of Raised e \<Rightarrow> e = TypeError \<or> e = ValueError | _ \<Rightarrow> True)"

text \<open>
  What an attempt on the form comes to under \<^verbatim>\<open>except (TypeError, ValueError): return {}\<close>:
  its value, the empty dictionary for a failure that is caught, the exception otherwise.
\<close>

definition settle :: "attempt \<Rightarrow> py_exn + pyval" where
  "settle a =
     (case a of
        NotTried \<Rightarrow> Inr (PDict [])
      | Gave v \<Rightarrow> Inr v
      | Raised e \<Rightarrow> if e = TypeError \<or> e = ValueError then Inr (PDict []) else Inl e)"

section \<open>Sequences of calls\<close>

text \<open>
  At most one record for each \<^verbatim>\<open>result_id\<close>; a store between two requests, where no
  transaction is open; a later list of records that has every record of an earlier one,
  under its name and with its \<^verbatim>\<open>result_id\<close>; and the store after a sequence of calls,
  each with the failures of the database during it.
\<close>

definition unique_result_ids :: "doc list \<Rightarrow> bool" where
  "unique_result_ids docs = (\<forall>rid. length (filter (has_result_id rid) docs) \<le> 1)"

definition store_ok :: "store \<Rightarrow> bool" where
  "store_ok s = (working s = committed s \<and> unique_result_ids (committed s))"

definition keeps_records :: "doc list \<Rightarrow> doc list \<Rightarrow> bool" where
  "keeps_records docs docs' =
     (length docs \<le> length docs' \<and>
      (\<forall>i<length docs. \<forall>rid. has_result_id rid (docs ! i) \<longrightarrow> has_result_id rid (docs' ! i)))"

fun run :: "pylib \<Rightarrow> ((db_op \<Rightarrow> bool) \<times> request) list \<Rightarrow> store \<Rightarrow> store" where
  "run L [] s = s"
| "run L ((fails, req) # calls) s = run L calls (snd (submit_quiz_result L fails req s))"

text \<open>A stored record and a later payload for the same \<^verbatim>\<open>result_id\<close>.\<close>

definition quiz_a :: doc where
  "quiz_a = [''result_id'' \<mapsto> PInt 1, ''quiz_title'' \<mapsto> PStr ''Quiz A'',
             ''score_type'' \<mapsto> PStr ''percentage'']"

definition quiz_b :: "(string \<times> pyval) list" where
  "quiz_b = [(''result_id'', PInt 1), (''quiz_title'', PStr ''Quiz B'')]"

section \<open>Reading JSON\<close>

text \<open>
  What it means to parse a text as JSON, after RFC 8259: white space is a space, a tab,
  a line feed or a carriage return; \<^verbatim>\<open>NaN\<close> and \<^verbatim>\<open>Infinity\<close> are not JSON.
\<close>

definition is_ws :: "char \<Rightarrow> bool" where
  "is_ws c = (c \<in> set [CHR '' '', CHR 0x09, CHR 0x0A, CHR 0x0D])"

definition skip_ws :: "string \<Rightarrow> string" where
  "skip_ws s = dropWhile is_ws s"

text \<open>The value of a hexadecimal digit.\<close>

definition hex_val :: "char \<Rightarrow> nat option" where
  "hex_val c =
     (let n = of_char c :: nat in
      if 48 \<le> n \<and> n \<le> 57 then Some (n - 48)
      else if 97 \<le> n \<and> n \<le> 102 then Some (n - 87)
      else if 65 \<le> n \<and> n \<le> 70 then Some (n - 55)
      else None)"

text \<open>
  The character of \<^verbatim>\<open>\uXXXX\<close>. Strings here have characters below 256 only, so a
  larger code is not read.
\<close>

definition unicode_escape :: "char \<Rightarrow> char \<Rightarrow> char \<Rightarrow> char \<Rightarrow> char option" where
  "unicode_escape h1 h2 h3 h4 =
     (case (hex_val h1, hex_val h2, hex_val h3, hex_val h4) of
        (Some a, Some b, Some c, Some d) \<Rightarrow>
          if a = 0 \<and> b = 0 then Some (char_of (16 * c + d)) else None
      | _ \<Rightarrow> None)"

text \<open>The character of a two-character escape.\<close>

definition simple_escape :: "char \<Rightarrow> char option" where
  "simple_escape e =
     (if e = dquote then Some dquote
      else if e = bslash then Some bslash
      else if e = CHR ''/'' then Some CHR ''/''
      else if e = CHR ''b'' then Some (CHR 0x08)
      else if e = CHR ''f'' then Some (CHR 0x0C)
      else if e = CHR ''n'' then Some (CHR 0x0A)
      else if e = CHR ''r'' then Some (CHR 0x0D)
      else if e = CHR ''t'' then Some (CHR 0x09)
      else None)"

text \<open>The text after an opening quote: the string up to the closing quote, and the rest.\<close>

definition cons_char :: "char \<Rightarrow> (string \<times> string) option \<Rightarrow> (string \<times> string) option" where
  "cons_char c r = map_option (\<lambda>(s, rest). (c # s, rest)) r"

fun parse_chars :: "string \<Rightarrow> (string \<times> string) option" where
  "parse_chars [] = None"
| "parse_chars (c # cs) =
     (if c = dquote then Some ([], cs)
      else if c = bslash then
        (case cs of
           [] \<Rightarrow> None
         | e # es \<Rightarrow>
             if e = CHR ''u'' then
               (case es of
                  h1 # h2 # h3 # h4 # r \<Rightarrow>
                    (case unicode_escape h1 h2 h3 h4 of
                       Some ch \<Rightarrow> cons_char ch (parse_chars r)
                     | None \<Rightarrow> None)
                | _ \<Rightarrow> None)
             else
               (case simple_escape e of
                  Some ch \<Rightarrow> cons_char ch (parse_chars es)
                | None \<Rightarrow> None))
      else if (of_char c :: nat) < 32 then None
      else cons_char c (parse_chars cs))"

text \<open>
  A number is the longest run of characters that occur in numbers; it must have the
  form \<^verbatim>\<open>-? (0 | [1-9][0-9]*) (. [0-9]+)? ([eE] [+-]? [0-9]+)?\<close>. With a fraction or an
  exponent it is a float, read by \<^verbatim>\<open>float\<close>; else it is an integer.
\<close>

definition is_num_char :: "char \<Rightarrow> bool" where
  "is_num_char c = (c \<in> set ''0123456789+-.eE'')"

definition all_digits :: "string \<Rightarrow> bool" where
  "all_digits s = (s \<noteq> [] \<and> list_all is_digit s)"

fun num_exp :: "string \<Rightarrow> bool" where
  "num_exp [] = True"
| "num_exp (e # r) =
     ((e = CHR ''e'' \<or> e = CHR ''E'') \<and>
      (case r of
         [] \<Rightarrow> False
       | c # r' \<Rightarrow> if c = CHR ''+'' \<or> c = CHR ''-'' then all_digits r' else all_digits r))"

definition num_frac :: "string \<Rightarrow> bool" where
  "num_frac s =
     (case s of
        c # r \<Rightarrow>
          if c = CHR ''.'' then
            takeWhile is_digit r \<noteq> [] \<and> num_exp (dropWhile is_digit r)
          else num_exp s
      | [] \<Rightarrow> True)"

definition num_int :: "string \<Rightarrow> bool" where
  "num_int s =
     (case s of
        [] \<Rightarrow> False
      | c # r \<Rightarrow>
          if c = CHR ''0'' then num_frac r
          else is_digit c \<and> num_frac (dropWhile is_digit r))"

definition json_number :: "string \<Rightarrow> bool" where
  "json_number s = (case s of c # r \<Rightarrow> if c = CHR ''-'' then num_int r else num_int s | [] \<Rightarrow> False)"

definition is_float_token :: "string \<Rightarrow> bool" where
  "is_float_token s = (\<exists>c \<in> set s. c \<in> set ''.eE'')"

definition read_nat :: "string \<Rightarrow> nat" where
  "read_nat s = foldl (\<lambda>acc c. acc * 10 + (of_char c - 48)) 0 s"

definition read_int :: "string \<Rightarrow> int" where
  "read_int s = (case s of c # r \<Rightarrow> if c = CHR ''-'' then - int (read_nat r) else int (read_nat s) | [] \<Rightarrow> 0)"

definition parse_number :: "pylib \<Rightarrow> string \<Rightarrow> (pyval \<times> string) option" where
  "parse_number L s =
     (let tok = takeWhile is_num_char s; rest = dropWhile is_num_char s in
      if \<not> json_number tok then None
      else if is_float_token tok then
        (case float_of_str L tok of Some f \<Rightarrow> Some (PFloat f, rest) | None \<Rightarrow> None)
      else Some (PInt (read_int tok), rest))"

text \<open>One of the words \<^verbatim>\<open>null\<close>, \<^verbatim>\<open>true\<close>, \<^verbatim>\<open>false\<close>.\<close>

definition literal :: "string \<Rightarrow> pyval \<Rightarrow> string \<Rightarrow> (pyval \<times> string) option" where
  "literal w v s = (if take (length w) s = w then Some (v, drop (length w) s) else None)"

text \<open>
  The dictionary of the members of an object: a name that comes again replaces the
  value and keeps the place.
\<close>

definition dict_of :: "(string \<times> pyval) list \<Rightarrow> (string \<times> pyval) list" where
  "dict_of kvs = fold (\<lambda>(k, v) d. AList.update k v d) kvs []"

text \<open>
  A value, the elements of an array after \<^verbatim>\<open>[\<close> and the members of an object after
  \<^verbatim>\<open>{\<close>, each with the text that follows. The first argument bounds the depth of the
  calls; the length of the text is enough.
\<close>

fun parse_value :: "pylib \<Rightarrow> nat \<Rightarrow> string \<Rightarrow> (pyval \<times> string) option"
  and parse_elements :: "pylib \<Rightarrow> nat \<Rightarrow> string \<Rightarrow> (pyval list \<times> string) option"
  and parse_members :: "pylib \<Rightarrow> nat \<Rightarrow> string \<Rightarrow> ((string \<times> pyval) list \<times> string) option"
where
  "parse_value L 0 s = None"
| "parse_value L (Suc n) s =
     (case skip_ws s of
        [] \<Rightarrow> None
      | c # cs \<Rightarrow>
          if c = CHR ''{'' then
            (case skip_ws cs of
               [] \<Rightarrow> None
             | d # r \<Rightarrow>
                 if d = CHR ''}'' then Some (PDict [], r)
                 else map_option (\<lambda>(kvs, r). (PDict (dict_of kvs), r)) (parse_members L n cs))
          else if c = CHR ''['' then
            (case skip_ws cs of
               [] \<Rightarrow> None
             | d # r \<Rightarrow>
                 if d = CHR '']'' then Some (PList [], r)
                 else map_option (\<lambda>(vs, r). (PList vs, r)) (parse_elements L n cs))
          else if c = dquote then map_option (\<lambda>(str, r). (PStr str, r)) (parse_chars cs)
          else if c = CHR ''n'' then literal ''null'' PNone (c # cs)
          else if c = CHR ''t'' then literal ''true'' (PBool True) (c # cs)
          else if c = CHR ''f'' then literal ''false'' (PBool False) (c # cs)
          else parse_number L (c # cs))"
| "parse_elements L 0 s = None"
| "parse_elements L (Suc n) s =
     (case parse_value L n s of
        None \<Rightarrow> None
      | Some (v, r) \<Rightarrow>
          (case skip_ws r of
             [] \<Rightarrow> None
           | c # r' \<Rightarrow>
               if c = CHR '','' then
                 map_option (\<lambda>(vs, r''). (v # vs, r'')) (parse_elements L n r')
               else if c = CHR '']'' then Some ([v], r')
               else None))"
| "parse_members L 0 s = None"
| "parse_members L (Suc n) s =
     (case skip_ws s of
        [] \<Rightarrow> None
      | q # s1 \<Rightarrow>
          if q \<noteq> dquote then None
          else
            (case parse_chars s1 of
               None \<Rightarrow> None
             | Some (k, s2) \<Rightarrow>
                 (case skip_ws s2 of
                    [] \<Rightarrow> None
                  | c # s3 \<Rightarrow>
                      if c \<noteq> CHR '':'' then None
                      else
                        (case parse_value L n s3 of
                           None \<Rightarrow> None
                         | Some (v, r) \<Rightarrow>
                             (case skip_ws r of
                                [] \<Rightarrow> None
                              | c # r' \<Rightarrow>
                                  if c = CHR '','' then
                                    map_option (\<lambda>(kvs, r''). ((k, v) # kvs, r''))
                                      (parse_members L n r')
                                  else if c = CHR ''}'' then Some ([(k, v)], r')
                                  else None)))))"

text \<open>A JSON text: one value, and white space only around it.\<close>

definition json_parse :: "pylib \<Rightarrow> string \<Rightarrow> pyval option" where
  "json_parse L s =
     (case parse_value L (length s) s of
        Some (v, rest) \<Rightarrow> if skip_ws rest = [] then Some v else None
      | None \<Rightarrow> None)"

text \<open>
  A value that is written as JSON and read back as itself: every dictionary has each key
  once, as every Python dictionary does, and every float is finite, and its text is a
  JSON number with a fraction or an exponent that \<^verbatim>\<open>float\<close> reads back as the same float,
  as holds of Python's \<^verbatim>\<open>repr\<close> and \<^verbatim>\<open>float\<close>.
\<close>

definition float_ok :: "pylib \<Rightarrow> pyfloat \<Rightarrow> bool" where
  "float_ok L f =
     (let tok = repr_float L f in
      json_number tok \<and> is_float_token tok \<and> float_of_str L tok = Some f)"

fun json_ok :: "pylib \<Rightarrow> pyval \<Rightarrow> bool"
  and json_ok_list :: "pylib \<Rightarrow> pyval list \<Rightarrow> bool"
  and json_ok_items :: "pylib \<Rightarrow> (string \<times> pyval) list \<Rightarrow> bool"
where
  "json_ok L PNone = True"
| "json_ok L (PBool b) = True"
| "json_ok L (PInt n) = True"
| "json_ok L (PFloat f) = (case f of Finite q \<Rightarrow> float_ok L f | _ \<Rightarrow> False)"
| "json_ok L (PStr s) = True"
| "json_ok L (PList xs) = json_ok_list L xs"
| "json_ok L (PDict kvs) = (distinct (map fst kvs) \<and> json_ok_items L kvs)"
| "json_ok_list L [] = True"
| "json_ok_list L (x # xs) = (json_ok L x \<and> json_ok_list L xs)"
| "json_ok_items L [] = True"
| "json_ok_items L ((k, v) # kvs) = (json_ok L v \<and> json_ok_items L kvs)"

text \<open>What may follow a number: the end of the text, or a character that no number has.\<close>

definition ok_rest :: "string \<Rightarrow> bool" where
  "ok_rest rest = (case rest of [] \<Rightarrow> True | c # _ \<Rightarrow> \<not> is_num_char c)"

text \<open>The characters that a value can begin with.\<close>

definition is_value_start :: "char \<Rightarrow> bool" where
  "is_value_start c =
     (c = CHR ''{'' \<or> c = CHR ''['' \<or> c = dquote \<or> c = CHR ''n'' \<or> c = CHR ''t'' \<or>
      c = CHR ''f'' \<or> c = CHR ''-'' \<or> is_digit c)"

text \<open>
  A text is compact when no white space stands outside its strings. The scan is outside
  every string, inside one, or inside one and after a backslash; it ends well outside.
\<close>

datatype scan_state = Outside | Inside | Escaped

fun scan :: "scan_state \<Rightarrow> string \<Rightarrow> bool" where
  "scan st [] = (st = Outside)"
| "scan Outside (c # cs) =
     (if is_ws c then False else if c = dquote then scan Inside cs else scan Outside cs)"
| "scan Inside (c # cs) =
     (if c = dquote then scan Outside cs
      else if c = bslash then scan Escaped cs
      else scan Inside cs)"
| "scan Escaped (c # cs) = scan Inside cs"

definition compact :: "string \<Rightarrow> bool" where
  "compact s = scan Outside s"

section \<open>Sample values\<close>

text \<open>
  A library to run the definitions on examples. It knows the one float 1.5, and no string
  is a date. Its \<^verbatim>\<open>json.loads\<close> reads JSON as above, raises \<^verbatim>\<open>ValueError\<close> for any other
  text, and raises \<^verbatim>\<open>RecursionError\<close> for a text that begins with 1000 opening brackets,
  as Python 3.11 does.
\<close>

definition sample_floats :: pylib where
  "sample_floats =
     \<lparr>float_of_str = (\<lambda>s. if s = ''1.5'' then Some (Finite (3 / 2)) else None),
      repr_float = (\<lambda>f. ''1.5''), repr_container = (\<lambda>v. ''[]''),
      get_datetime = (\<lambda>v. Inl ValueError), json_loads = (\<lambda>s. Inl ValueError)\<rparr>"

definition sample_loads :: "string \<Rightarrow> py_exn + pyval" where
  "sample_loads s =
     (if 1000 \<le> length (takeWhile (\<lambda>c. c = CHR ''['') s) then Inl RecursionError
      else case json_parse sample_floats s of Some v \<Rightarrow> Inr v | None \<Rightarrow> Inl ValueError)"

definition sample_lib :: pylib where
  "sample_lib = sample_floats\<lparr>json_loads := sample_loads\<rparr>"

definition empty_store :: store where
  "empty_store = \<lparr>committed = [], working = [], error_log = []\<rparr>"

definition json_request :: "pyval \<Rightarrow> request" where
  "json_request body = \<lparr>get_json = Inr body, form_dict = PDict []\<rparr>"

text \<open>A form with one field, and no body that is JSON.\<close>

definition form_request :: "string \<Rightarrow> string \<Rightarrow> request" where
  "form_request k v = \<lparr>get_json = Inl ValueError, form_dict = PDict [(k, PStr v)]\<rparr>"

text \<open>Payloads to try: one with an infinite float, one with all kinds of values.\<close>

definition quiz_c :: "(string \<times> pyval) list" where
  "quiz_c = [(''result_id'', PInt 1), (''quiz_title'', PStr ''Quiz A''),
             (''extra'', PFloat PosInf)]"

definition quiz_d :: "(string \<times> pyval) list" where
  "quiz_d = [(''result_id'', PStr ''7''), (''quiz_title'', PStr [CHR ''Q'', CHR 0x22, CHR 0x5C, CHR 0x0A, CHR 0x01]),
             (''score_percentage'', PFloat (Finite (3 / 2))),
             (''fields'', PDict [(''quiz_attr_2'', PDict [(''value'', PStr ''Jane Doe'')])]),
             (''tags'', PList [PNone, PBool True, PInt (- 30), PList [], PDict []])]"

section \<open>Integer coercion\<close>

lemma to_int_absent:
  "to_int PNone = Inr None" "to_int (PStr '''') = Inr None" "to_int (PStr ''null'') = Inr None"
  by (simp_all add: to_int_def is_absent_def)

lemma to_int_42: "to_int (PStr ''42'') = Inr (Some 42)"
  by (simp add: to_int_def is_absent_def int_of_str_def strip_def is_space_def digits_def
      is_digit_def digit_val_def)

lemma to_int_abc: "to_int (PStr ''abc'') = Inr None"
  by (simp add: to_int_def is_absent_def int_of_str_def strip_def is_space_def digits_def
      is_digit_def)

lemma to_int_raises_iff:
  "to_int v = Inl e \<longleftrightarrow> e = OverflowError \<and> (v = PFloat PosInf \<or> v = PFloat NegInf)"
  by (cases v rule: py_int.cases)
     (auto simp: to_int_def is_absent_def split: option.splits)

text \<open>
  C7. \<^verbatim>\<open>_to_int\<close> is meant never to raise, and gives \<^verbatim>\<open>None\<close> for what it cannot read.
  On an infinite float, which a JSON body such as \<^verbatim>\<open>{"result_id": 1e999}\<close> parses to,
  \<^verbatim>\<open>int\<close> raises \<^verbatim>\<open>OverflowError\<close>, which \<^verbatim>\<open>except (TypeError, ValueError)\<close> does not
  catch: the call raises.
\<close>

theorem to_int_infinity_raises: "to_int (PFloat PosInf) = Inl OverflowError"
  by (simp add: to_int_def is_absent_def)

section \<open>Float and timestamp coercion\<close>

lemma to_float_raises_only_on_int:
  "to_float L v = Inl e \<Longrightarrow> e = OverflowError \<and> (\<exists>n. v = PInt n)"
  by (cases v)
     (auto simp: to_float_def is_absent_def float_of_int_def Let_def
           split: option.splits if_splits)

lemma to_datetime_falsy: "\<not> truthy v \<Longrightarrow> to_datetime L v = None"
  by (simp add: to_datetime_def)

lemma to_datetime_Some:
  "to_datetime L v = Some s \<longleftrightarrow>
     truthy v \<and> (\<exists>dt. get_datetime L v = Inr (Some dt) \<and> s = strftime dt)"
  by (auto simp: to_datetime_def split: sum.splits option.splits)

lemma length_show_nat:
  "n < 10 \<Longrightarrow> length (show_nat n) = 1"
  "n < 100 \<Longrightarrow> length (show_nat n) \<le> 2"
  "1000 \<le> n \<Longrightarrow> n < 10000 \<Longrightarrow> length (show_nat n) = 4"
proof -
  show one: "length (show_nat n) = 1" if "n < 10" for n
    using that by (subst show_nat.simps) simp
  show "length (show_nat n) \<le> 2" if "n < 100"
    using that one [of "n div 10"] by (subst show_nat.simps) simp
  have two: "length (show_nat n) = 2" if "10 \<le> n" "n < 100" for n
    using that one [of "n div 10"] by (subst show_nat.simps) simp
  have three: "length (show_nat n) = 3" if "100 \<le> n" "n < 1000" for n
    using that two [of "n div 10"] by (subst show_nat.simps) simp
  show "length (show_nat n) = 4" if "1000 \<le> n" "n < 10000"
    using that three [of "n div 10"] by (subst show_nat.simps) simp
qed

lemma length_zpad: "length s \<le> w \<Longrightarrow> length (zpad w s) = w"
  by (simp add: zpad_def)

text \<open>
  For a year of four digits, the text has the nineteen characters of
  \<^verbatim>\<open>YYYY-MM-DD HH:MM:SS\<close>, with the separators in their places. An earlier year is
  written with fewer digits, and the text is shorter.
\<close>

lemma strftime_format:
  assumes "1000 \<le> year dt" and "year dt < 10000" and "month dt < 100" and "day dt < 100"
    and "hour dt < 100" and "minute dt < 100" and "second dt < 100"
  shows "length (strftime dt) = 19"
    and "strftime dt ! 4 = CHR ''-''" and "strftime dt ! 7 = CHR ''-''"
    and "strftime dt ! 10 = CHR '' ''" and "strftime dt ! 13 = CHR '':''"
    and "strftime dt ! 16 = CHR '':''"
proof -
  have len: "length (show_nat (year dt)) = 4" "length (zpad 2 (show_nat (month dt))) = 2"
    "length (zpad 2 (show_nat (day dt))) = 2" "length (zpad 2 (show_nat (hour dt))) = 2"
    "length (zpad 2 (show_nat (minute dt))) = 2" "length (zpad 2 (show_nat (second dt))) = 2"
    using assms by (simp_all add: length_zpad length_show_nat)
  then show "length (strftime dt) = 19"
    by (simp add: strftime_def)
  from len show "strftime dt ! 4 = CHR ''-''" "strftime dt ! 7 = CHR ''-''"
    "strftime dt ! 10 = CHR '' ''" "strftime dt ! 13 = CHR '':''" "strftime dt ! 16 = CHR '':''"
    by (simp_all add: strftime_def nth_append)
qed

lemma strftime_year_999:
  "strftime \<lparr>year = 999, month = 1, day = 1, hour = 0, minute = 0, second = 0\<rparr> =
     ''999-01-01 00:00:00''"
  by code_simp

text \<open>
  C8. \<^verbatim>\<open>_to_float\<close> is meant never to raise. On an integer too large for a double,
  which a JSON body such as \<^verbatim>\<open>{"points": 1000...0}\<close> with 400 zeros parses to,
  \<^verbatim>\<open>float\<close> raises \<^verbatim>\<open>OverflowError\<close>, which \<^verbatim>\<open>except (TypeError, ValueError)\<close> does not
  catch: the call raises. (\<^verbatim>\<open>_to_datetime\<close> catches every exception.)
\<close>

theorem to_float_huge_int_raises: "to_float L (PInt (10 ^ 400)) = Inl OverflowError"
  by code_simp

section \<open>Custom fields\<close>

lemma first_non_empty_Nil: "first_non_empty L [] = None"
  by (simp add: first_non_empty_def)

lemma first_non_empty_Cons:
  "first_non_empty L (c # cs) =
     (if \<not> is_empty c then Some (py_str L c) else first_non_empty L cs)"
  by (simp add: first_non_empty_def)

lemma first_non_empty_append:
  "first_non_empty L (xs @ ys) =
     (case first_non_empty L xs of Some s \<Rightarrow> Some s | None \<Rightarrow> first_non_empty L ys)"
  by (induction xs) (auto simp: first_non_empty_def)

lemmas fne = first_non_empty_Nil first_non_empty_Cons value_of_def candidate_of_def Let_def

lemma find_label_filter:
  "find_label label vs =
     (case filter (is_labelled label) vs of [] \<Rightarrow> None | v # _ \<Rightarrow> Some v)"
  by (induction label vs rule: find_label.induct) (auto simp: is_labelled_def)

lemma is_labelled_dict: "is_labelled label v \<Longrightarrow> \<exists>d. v = PDict d"
  by (cases v) (auto simp: is_labelled_def)

lemma select_item_Nil: "select_item [] slug label = PNone"
  by (simp add: select_item_def dict_get_def)

text \<open>The first block of the function looks at the candidates from \<^verbatim>\<open>fields\<close>.\<close>

lemma from_fields_candidates:
  "from_fields L p slug label = first_non_empty L (fields_candidates p slug label)"
proof (cases "dict_get p ''fields''")
  case (PDict flds)
  show ?thesis
  proof (cases "flds = []")
    case True
    with PDict show ?thesis
      by (simp add: from_fields_def fields_candidates_def label_candidates_def py_or_def
          select_item_Nil dict_get_def first_non_empty_Nil)
  next
    case False
    show ?thesis
    proof (cases "truthy (dict_get flds slug)")
      case True
      with PDict False show ?thesis
        by (cases "dict_get flds slug")
           (simp_all add: from_fields_def fields_candidates_def py_or_def select_item_def fne)
    next
      case falsy: False
      show ?thesis
      proof (cases "filter (is_labelled label) (map snd flds)")
        case Nil
        with PDict False falsy show ?thesis
          by (cases "dict_get flds slug")
             (simp_all add: from_fields_def fields_candidates_def label_candidates_def
                py_or_def select_item_def find_label_filter first_non_empty_Nil
                candidate_of_def dict_get_def is_empty_def)
      next
        case (Cons v vs)
        then have "is_labelled label v"
          by (metis filter_eq_ConsD)
        then obtain d where "v = PDict d"
          using is_labelled_dict by blast
        with PDict False falsy Cons show ?thesis
          by (simp add: from_fields_def fields_candidates_def label_candidates_def py_or_def
              select_item_def find_label_filter fne)
      qed
    qed
  qed
qed (simp_all add: from_fields_def fields_candidates_def py_or_def first_non_empty_Nil
    select_item_Nil)

lemma scan_custom_fields_candidates:
  "scan_custom_fields L slug label es =
     first_non_empty L (concat (map value_of (filter (is_custom_entry slug label) es)))"
  by (induction L slug label es rule: scan_custom_fields.induct)
     (auto simp: is_custom_entry_def first_non_empty_append fne split: option.splits)

lemma from_custom_fields_candidates:
  "from_custom_fields L p slug label =
     first_non_empty L (custom_fields_candidates p slug label)"
  by (cases "dict_get p ''custom_fields''")
     (auto simp: from_custom_fields_def custom_fields_candidates_def py_or_def
        scan_custom_fields_candidates first_non_empty_def)

lemma from_custom_field_values_candidates:
  "from_custom_field_values L p slug =
     first_non_empty L (custom_field_values_candidates p slug)"
  by (cases "dict_get p ''custom_field_values''")
     (auto simp: from_custom_field_values_def custom_field_values_candidates_def py_or_def
        first_non_empty_def candidate_of_def Let_def dict_get_def is_empty_def)

text \<open>
  C3, as the code has it. \<^verbatim>\<open>_extract_custom_value\<close> returns, as a string, the first
  candidate that is neither \<^verbatim>\<open>None\<close> nor empty, and \<^verbatim>\<open>None\<close> when there is none. The
  candidates are in this order: from \<^verbatim>\<open>fields\<close> the value of one entry, which is
  \<^verbatim>\<open>fields[slug]\<close> when that is truthy and else the first dictionary with the matching label;
  from \<^verbatim>\<open>custom_fields\<close> the values of the entries with the slug or the label; and
  \<^verbatim>\<open>custom_field_values[slug]\<close>. So the entries of \<^verbatim>\<open>fields\<close> are searched by label only
  when \<^verbatim>\<open>fields[slug]\<close> is missing or falsy.
\<close>

theorem extract_custom_value_candidates:
  "extract_custom_value L p slug label = first_non_empty L (candidates p slug label)"
  by (simp add: extract_custom_value_def candidates_def first_non_empty_append
      from_fields_candidates from_custom_fields_candidates from_custom_field_values_candidates
      split: option.splits)

text \<open>
  The claim as written fails: \<^verbatim>\<open>fields[slug]\<close> is there with an empty value, another entry
  of \<^verbatim>\<open>fields\<close> has the label and the value \<^verbatim>\<open>Jane Doe\<close>, and the result is \<^verbatim>\<open>None\<close>.
\<close>

theorem extract_custom_value_label_not_tried:
  "extract_custom_value sample_lib
     [(''fields'', PDict
        [(''quiz_attr_2'', PDict [(''label'', PStr ''Student's Name''), (''value'', PStr '''')]),
         (''name'', PDict [(''label'', PStr ''Student's Name''), (''value'', PStr ''Jane Doe'')])])]
     ''quiz_attr_2'' ''Student's Name'' = None"
  by (simp add: extract_custom_value_def from_fields_def from_custom_fields_def
      from_custom_field_values_def select_item_def py_or_def dict_get_def candidate_of_def
      is_empty_def)

text \<open>The part of the claim that holds: a value under \<^verbatim>\<open>fields[slug]\<close> wins over all else.\<close>

lemma fields_slug_value_wins:
  assumes "dict_get p ''fields'' = PDict flds" and "dict_get flds slug = PDict item"
    and "\<not> is_empty (dict_get item ''value'')"
  shows "extract_custom_value L p slug label = Some (py_str L (dict_get item ''value''))"
proof -
  from assms(3) have "item \<noteq> []"
    by (auto simp: dict_get_def is_empty_def)
  with assms show ?thesis
    by (simp add: extract_custom_value_def from_fields_candidates fields_candidates_def fne)
qed

text \<open>
  C10, as the code has it. When \<^verbatim>\<open>fields[slug]\<close> is not a dictionary, its value is never
  a candidate. If it is truthy, as \<^verbatim>\<open>"Jane Doe"\<close> is, the other entries of \<^verbatim>\<open>fields\<close> are
  not looked at either, and the result comes from \<^verbatim>\<open>custom_fields\<close>, then
  \<^verbatim>\<open>custom_field_values\<close>. If it is falsy, as \<^verbatim>\<open>""\<close> is, the first dictionary of \<^verbatim>\<open>fields\<close>
  with the matching label comes before these.
\<close>

theorem raw_field_value_not_returned:
  assumes "dict_get p ''fields'' = PDict flds" and "map_of flds slug = Some raw"
    and "\<forall>d. raw \<noteq> PDict d"
  shows "extract_custom_value L p slug label =
     first_non_empty L
       ((if truthy raw then [] else label_candidates flds label) @
        custom_fields_candidates p slug label @ custom_field_values_candidates p slug)"
proof -
  from assms(2) have raw: "dict_get flds slug = raw"
    by (simp add: dict_get_def)
  from assms(3) have "value_of raw = []"
    by (cases raw) (simp_all add: value_of_def)
  with assms(1) raw
  have "fields_candidates p slug label = (if truthy raw then [] else label_candidates flds label)"
    by (simp add: fields_candidates_def)
  then show ?thesis
    by (simp add: extract_custom_value_def first_non_empty_append from_fields_candidates
        from_custom_fields_candidates from_custom_field_values_candidates
        split: option.splits)
qed

theorem raw_field_value_not_returned_witness:
  "extract_custom_value sample_lib
     [(''fields'', PDict [(''quiz_attr_2'', PStr ''Jane Doe'')]),
      (''custom_field_values'', PDict [(''quiz_attr_2'', PStr ''Ann'')])]
     ''quiz_attr_2'' ''Student's Name'' = Some ''Ann''"
proof -
  have a: "dict_get [(''fields'', PDict [(''quiz_attr_2'', PStr ''Jane Doe'')]),
      (''custom_field_values'', PDict [(''quiz_attr_2'', PStr ''Ann'')])] ''fields''
      = PDict [(''quiz_attr_2'', PStr ''Jane Doe'')]"
    by (simp add: dict_get_def)
  have b: "map_of [(''quiz_attr_2'', PStr ''Jane Doe'')] ''quiz_attr_2'' = Some (PStr ''Jane Doe'')"
    by simp
  have c: "\<forall>d. PStr ''Jane Doe'' \<noteq> PDict d"
    by simp
  show ?thesis
    using raw_field_value_not_returned [OF a b c, of sample_lib "''Student's Name''"]
    by (simp add: custom_fields_candidates_def custom_field_values_candidates_def dict_get_def
        fne is_empty_def)
qed

text \<open>
  The claim as written fails: \<^verbatim>\<open>fields[slug]\<close> is the string \<^verbatim>\<open>""\<close>, there are no
  \<^verbatim>\<open>custom_fields\<close> and no \<^verbatim>\<open>custom_field_values\<close>, and the result is not \<^verbatim>\<open>None\<close> but the
  value of the entry of \<^verbatim>\<open>fields\<close> with the matching label.
\<close>

theorem raw_empty_field_value_label_tried:
  "extract_custom_value sample_lib
     [(''fields'', PDict
        [(''quiz_attr_2'', PStr ''''),
         (''name'', PDict [(''label'', PStr ''Student's Name''), (''value'', PStr ''Jane Doe'')])])]
     ''quiz_attr_2'' ''Student's Name'' = Some ''Jane Doe''"
  by (simp add: extract_custom_value_def from_fields_def select_item_def py_or_def dict_get_def
      candidate_of_def is_empty_def)

section \<open>Validation of the required fields\<close>

lemmas resp_defs = required_fields_def missing_payload_def unexpected_error_def
  error_response_def success_response_def

lemma upsert_not_required: "upsert fails rid vals s \<noteq> (Inr required_fields, s')"
  by (auto simp: upsert_def resp_defs split: option.splits prod.splits)

text \<open>
  C1, as the code has it. Take a payload that is a non-empty dictionary and on whose
  \<^verbatim>\<open>result_id\<close> the coercion \<^verbatim>\<open>_to_int\<close> does not raise. The call returns the message
  \<^verbatim>\<open>Both result_id and quiz_title are required.\<close> and leaves the store as it was exactly
  when the coerced \<^verbatim>\<open>result_id\<close> is \<^verbatim>\<open>None\<close> or 0, or \<^verbatim>\<open>quiz_title\<close> is missing or falsy
  (\<^verbatim>\<open>None\<close>, empty, zero, \<^verbatim>\<open>False\<close>). Every other such payload goes on to the derivation of
  the fields and to the store.
\<close>

theorem required_fields_iff:
  assumes "load_payload L req = Inr (PDict p)" and "p \<noteq> []"
    and "to_int (dict_get p ''result_id'') = Inr r"
  shows "(submit_quiz_result L fails req s = (Inr required_fields, s) \<longleftrightarrow>
            r = None \<or> r = Some 0 \<or> \<not> truthy (dict_get p ''quiz_title'')) \<and>
         (\<forall>rid. r = Some rid \<and> rid \<noteq> 0 \<and> truthy (dict_get p ''quiz_title'') \<longrightarrow>
            submit_quiz_result L fails req s =
              (case doc_values L p rid (dict_get p ''quiz_title'') of
                 Inl e \<Rightarrow> (Inl e, s)
               | Inr vals \<Rightarrow> upsert fails rid vals s))"
  using assms upsert_not_required [of fails _ _ s s]
  by (auto simp: submit_quiz_result_def Let_def split: option.splits sum.splits)

theorem required_fields_iff_witness:
  "submit_quiz_result sample_lib (\<lambda>op. False)
     (json_request (PDict [(''result_id'', PStr ''7''), (''quiz_title'', PStr '''')]))
     empty_store = (Inr required_fields, empty_store)"
proof -
  let ?p = "[(''result_id'', PStr ''7''), (''quiz_title'', PStr '''')]"
  have a: "load_payload sample_lib (json_request (PDict ?p)) = Inr (PDict ?p)"
    by (simp add: load_payload_def json_request_def)
  have b: "?p \<noteq> []"
    by simp
  have c: "to_int (dict_get ?p ''result_id'') = Inr (Some 7)"
    by (simp add: to_int_def is_absent_def dict_get_def int_of_str_def strip_def is_space_def
        digits_def is_digit_def digit_val_def)
  show ?thesis
    using required_fields_iff [OF a b c, of "\<lambda>op. False" empty_store]
    by (simp add: dict_get_def)
qed

text \<open>
  The claim as written fails: \<^verbatim>\<open>result_id\<close> coerces to the integer 0, the key
  \<^verbatim>\<open>quiz_title\<close> is there, and the payload does not pass the validation.
\<close>

theorem result_id_zero_rejected:
  "to_int (PInt 0) = Inr (Some 0) \<and>
   map_of [(''result_id'', PInt 0), (''quiz_title'', PStr ''Quiz A'')] ''quiz_title''
     = Some (PStr ''Quiz A'') \<and>
   submit_quiz_result sample_lib (\<lambda>op. False)
     (json_request (PDict [(''result_id'', PInt 0), (''quiz_title'', PStr ''Quiz A'')]))
     empty_store = (Inr required_fields, empty_store)"
  by (simp add: submit_quiz_result_def load_payload_def json_request_def to_int_def
      is_absent_def dict_get_def)

text \<open>
  A body that is JSON and not an object, such as \<^verbatim>\<open>[1]\<close>, is a payload without the method
  \<^verbatim>\<open>get\<close>: the call raises \<^verbatim>\<open>AttributeError\<close>.
\<close>

lemma non_object_payload_raises:
  "submit_quiz_result L fails (json_request (PList [PInt 1])) s = (Inl AttributeError, s)"
  by (simp add: submit_quiz_result_def load_payload_def json_request_def)

section \<open>Failures of the store\<close>

lemma upsert_lookup_fails: "fails GetAll \<Longrightarrow> upsert fails rid vals s = (Inl StoreError, s)"
  by (simp add: upsert_def)

text \<open>
  A call that fails inside the \<^verbatim>\<open>try\<close> is answered as the specification says: the
  transaction is given up, the failure is noted, the generic message is returned.
\<close>

lemma upsert_write_fails:
  assumes "\<not> fails GetAll"
    and "case get_all rid (working s) of
           Some i \<Rightarrow> fails GetDoc \<or> fails Update \<or> fails Save \<or> fails Commit
         | None \<Rightarrow> fails NewDoc \<or> fails Update \<or> fails Insert \<or> fails Commit"
  shows "upsert fails rid vals s =
     (Inr unexpected_error,
      s\<lparr>working := committed s,
        error_log := ''Placement Test Result API Error'' # error_log s\<rparr>)"
  using assms by (auto simp: upsert_def write_doc_def split: option.splits)

text \<open>A failing first lookup on any payload that passes the validation.\<close>

lemma lookup_failure_propagates:
  assumes "load_payload L req = Inr (PDict p)"
    and "to_int (dict_get p ''result_id'') = Inr (Some rid)" and "rid \<noteq> 0"
    and "truthy (dict_get p ''quiz_title'')"
    and "doc_values L p rid (dict_get p ''quiz_title'') = Inr vals"
    and "fails GetAll"
  shows "submit_quiz_result L fails req s = (Inl StoreError, s)"
proof -
  from assms(2) have "p \<noteq> []"
    by (auto simp: dict_get_def to_int_def is_absent_def)
  with assms show ?thesis
    by (simp add: submit_quiz_result_def upsert_lookup_fails)
qed

text \<open>
  C2. Every failure of the store is meant to end in a rollback and the message
  \<^verbatim>\<open>An unexpected error occurred.\<close> The first lookup, \<^verbatim>\<open>frappe.get_all\<close>, stands before
  the \<^verbatim>\<open>try\<close>: when it fails, the exception reaches the caller.
\<close>

theorem lookup_failure_raises:
  "submit_quiz_result sample_lib (\<lambda>op. op = GetAll)
     (json_request (PDict [(''result_id'', PInt 1), (''quiz_title'', PStr ''Quiz A'')]))
     empty_store = (Inl StoreError, empty_store)"
  by (simp add: submit_quiz_result_def load_payload_def json_request_def to_int_def
      is_absent_def dict_get_def doc_values_def bindE_def to_float_def py_or_def
      upsert_lookup_fails)

section \<open>Missing payload\<close>

lemma sole_string_Some: "sole_string d = Some s \<longleftrightarrow> (\<exists>k. d = [(k, PStr s)])"
  by (cases d rule: sole_string.cases) auto

lemma loads_attempt_tried: "loads_attempt L s \<noteq> NotTried"
  by (simp add: loads_attempt_def split: sum.splits)

lemma loads_or_empty_settle: "loads_or_empty L s = settle (loads_attempt L s)"
  by (simp add: loads_or_empty_def loads_attempt_def settle_def split: sum.splits py_exn.splits)

lemma sole_field_json_sole:
  "form_dict req = PDict d \<Longrightarrow> sole_string d = Some t \<Longrightarrow>
     sole_field_json L req = loads_attempt L t"
  by (auto simp: sole_string_Some sole_field_json_def)

lemma sole_field_json_other:
  "form_dict req = PDict d \<Longrightarrow> sole_string d = None \<Longrightarrow> sole_field_json L req = NotTried"
  by (cases d rule: sole_string.cases)
     (simp_all add: sole_field_json_def split: prod.splits pyval.splits list.splits)

text \<open>
  The second half of \<^verbatim>\<open>_load_payload\<close> makes the second attempt, and the third only when the
  second is not made.
\<close>

lemma from_form_dict_attempts:
  "from_form_dict L (form_dict req) =
     (if sole_field_json L req \<noteq> NotTried then settle (sole_field_json L req)
      else settle (whole_form L req))"
proof (cases "form_dict req")
  case (PDict d)
  show ?thesis
  proof (cases "sole_string d")
    case None
    from sole_field_json_other [OF PDict None] have n: "sole_field_json L req = NotTried" .
    show ?thesis
    proof (cases "d = []")
      case True
      with PDict n show ?thesis
        by (simp add: from_form_dict_def whole_form_def settle_def)
    next
      case False
      with PDict None n show ?thesis
        by (simp add: from_form_dict_def whole_form_def loads_or_empty_settle)
    qed
  next
    case (Some t)
    from sole_field_json_sole [OF PDict Some] have n: "sole_field_json L req = loads_attempt L t" .
    from Some have "d \<noteq> []"
      by auto
    with PDict Some n show ?thesis
      by (simp add: from_form_dict_def loads_or_empty_settle loads_attempt_tried)
  qed
qed (simp_all add: from_form_dict_def sole_field_json_def whole_form_def settle_def)

text \<open>
  When each attempt that is made fails with an exception that is caught or gives a falsy
  value, the call returns the message \<^verbatim>\<open>Missing payload.\<close> and leaves the store as it was.
\<close>

lemma no_payload_missing:
  assumes "no_payload (direct_json req)"
    and "no_payload (sole_field_json L req)" and "caught (sole_field_json L req)"
    and "no_payload (whole_form L req)" and "caught (whole_form L req)"
  shows "submit_quiz_result L fails req s = (Inr missing_payload, s)"
proof -
  have "\<exists>v. from_form_dict L (form_dict req) = Inr v \<and> \<not> truthy v"
    using assms(2-5) unfolding from_form_dict_attempts
    by (auto simp: settle_def no_payload_def caught_def split: attempt.splits)
  then obtain v where "load_payload L req = Inr v" and "\<not> truthy v"
    using assms(1)
    by (auto simp: load_payload_def direct_json_def no_payload_def split: sum.splits)
  then show ?thesis
    by (simp add: submit_quiz_result_def)
qed

lemma sample_loads_not_json: "sample_loads ''not json'' = Inl ValueError"
  by code_simp

lemma no_payload_missing_sole_field:
  "submit_quiz_result sample_lib (\<lambda>op. False) (form_request ''data'' ''not json'') empty_store
   = (Inr missing_payload, empty_store)"
proof -
  let ?req = "form_request ''data'' ''not json''"
  have a: "no_payload (direct_json ?req)"
    by (simp add: no_payload_def direct_json_def form_request_def)
  have b: "sole_field_json sample_lib ?req = Raised ValueError"
    by (simp add: sole_field_json_def form_request_def loads_attempt_def sample_lib_def
        sample_loads_not_json)
  have "form_dict ?req = PDict [(''data'', PStr ''not json'')]"
    by (simp add: form_request_def)
  then have c: "whole_form sample_lib ?req = NotTried"
    by (simp add: whole_form_def b)
  show ?thesis
    using no_payload_missing [of ?req sample_lib "\<lambda>op. False" empty_store] a
    by (simp add: b c no_payload_def caught_def)
qed

text \<open>
  An attempt on the form that raises anything else is not caught: the call raises it.
\<close>

lemma uncaught_form_error_raises:
  assumes "no_payload (direct_json req)"
    and "sole_field_json L req = Raised e \<or>
         sole_field_json L req = NotTried \<and> whole_form L req = Raised e"
    and "e \<noteq> TypeError" and "e \<noteq> ValueError"
  shows "submit_quiz_result L fails req s = (Inl e, s)"
proof -
  have "from_form_dict L (form_dict req) = Inl e"
    using assms(2-4) unfolding from_form_dict_attempts
    by (auto simp: settle_def)
  then have "load_payload L req = Inl e"
    using assms(1)
    by (auto simp: load_payload_def direct_json_def no_payload_def split: sum.splits)
  then show ?thesis
    by (simp add: submit_quiz_result_def)
qed

text \<open>
  C9. When all three attempts to find a payload fail or give an empty structure, the call
  is meant to return the message \<^verbatim>\<open>Missing payload.\<close> The reading of the request body
  stands under \<^verbatim>\<open>except Exception\<close>, the two readings of the form under
  \<^verbatim>\<open>except (TypeError, ValueError)\<close>. For a form whose only field holds 1000 opening
  brackets, \<^verbatim>\<open>json.loads\<close> raises \<^verbatim>\<open>RecursionError\<close>, which is neither: with no body that
  is JSON and this form, every attempt fails, and the call raises instead of returning the
  message.
\<close>

theorem deep_form_field_raises:
  "submit_quiz_result sample_lib (\<lambda>op. False)
     (form_request ''data'' (replicate 1000 CHR ''['')) empty_store
   = (Inl RecursionError, empty_store)"
proof -
  let ?req = "form_request ''data'' (replicate 1000 CHR ''['')"
  have "takeWhile (\<lambda>c. c = CHR ''['') (replicate 1000 CHR ''['') = replicate 1000 CHR ''[''"
    by (rule takeWhile_eq_all_conv [THEN iffD2]) simp
  then have l: "sample_loads (replicate 1000 CHR ''['') = Inl RecursionError"
    by (simp add: sample_loads_def)
  have d: "load_payload sample_lib ?req = Inl RecursionError"
    by (simp add: load_payload_def form_request_def from_form_dict_def loads_or_empty_def
        sample_lib_def l)
  show ?thesis
    by (simp add: submit_quiz_result_def d)
qed

section \<open>One record for each result\<close>

lemma first_index_Some: "first_index P xs = Some i \<Longrightarrow> i < length xs \<and> P (xs ! i)"
  by (induction xs arbitrary: i) (auto split: if_splits)

lemma first_index_None: "first_index P xs = None \<Longrightarrow> filter P xs = []"
  by (induction xs) (auto split: if_splits)

lemma length_filter_update:
  "i < length xs \<Longrightarrow> P y = P (xs ! i) \<Longrightarrow> length (filter P (xs[i := y])) = length (filter P xs)"
  by (induction xs arbitrary: i) (auto split: nat.splits)

lemma bindE_Inr: "bindE m f = Inr y \<longleftrightarrow> (\<exists>x. m = Inr x \<and> f x = Inr y)"
  by (cases m) (simp_all add: bindE_def)

lemma doc_values_result_id:
  "doc_values L p rid t = Inr vals \<Longrightarrow> map_of (non_null vals) ''result_id'' = Some (PInt rid)"
  by (auto simp: doc_values_def bindE_Inr non_null_def)

lemma has_result_id_update:
  "map_of vals ''result_id'' = Some (PInt rid) \<Longrightarrow>
     has_result_id r (doc_update d vals) \<longleftrightarrow> r = rid"
  by (auto simp: has_result_id_def doc_update_def map_add_def)

lemma keeps_records_refl: "keeps_records docs docs"
  by (simp add: keeps_records_def)

lemma keeps_records_trans:
  "keeps_records a b \<Longrightarrow> keeps_records b c \<Longrightarrow> keeps_records a c"
  by (auto simp: keeps_records_def)

lemma write_doc_inv:
  assumes u: "unique_result_ids docs"
    and r: "map_of (non_null vals) ''result_id'' = Some (PInt rid)"
    and w: "write_doc fails (get_all rid docs) vals docs = Some (i, docs')"
  shows "unique_result_ids docs' \<and> keeps_records docs docs'"
proof (cases "get_all rid docs")
  case None
  then have none: "filter (has_result_id rid) docs = []"
    by (simp add: get_all_def first_index_None)
  from None w have docs': "docs' = docs @ [doc_update Map.empty (non_null vals)]"
    by (auto simp: write_doc_def split: if_splits)
  have "length (filter (has_result_id r) docs') \<le> 1" for r
    using u none has_result_id_update [OF r, of r Map.empty]
    by (cases "r = rid") (auto simp: docs' unique_result_ids_def)
  moreover have "keeps_records docs docs'"
    by (auto simp: keeps_records_def docs' nth_append)
  ultimately show ?thesis
    by (simp add: unique_result_ids_def)
next
  case (Some j)
  then have j: "j < length docs" "has_result_id rid (docs ! j)"
    using first_index_Some [of "has_result_id rid" docs j] by (simp_all add: get_all_def)
  from Some w have docs': "docs' = docs[j := doc_update (docs ! j) (non_null vals)]"
    by (auto simp: write_doc_def split: if_splits)
  have same: "has_result_id r (doc_update (docs ! j) (non_null vals)) = has_result_id r (docs ! j)" for r
    using j(2) has_result_id_update [OF r, of r "docs ! j"]
    by (auto simp: has_result_id_def)
  have "length (filter (has_result_id r) docs') \<le> 1" for r
    using u j(1) same [of r]
      length_filter_update [of j docs "has_result_id r" "doc_update (docs ! j) (non_null vals)"]
    by (simp add: docs' unique_result_ids_def)
  moreover have "has_result_id r (docs' ! i)" if "i < length docs" "has_result_id r (docs ! i)" for i r
    using that same [of r] by (cases "i = j") (simp_all add: docs')
  then have "keeps_records docs docs'"
    by (simp add: keeps_records_def docs')
  ultimately show ?thesis
    by (simp add: unique_result_ids_def)
qed

lemma upsert_inv:
  assumes "store_ok s" and "map_of (non_null vals) ''result_id'' = Some (PInt rid)"
  shows "store_ok (snd (upsert fails rid vals s)) \<and>
         keeps_records (committed s) (committed (snd (upsert fails rid vals s)))"
proof (cases "write_doc fails (get_all rid (working s)) vals (working s)")
  case None
  with assms(1) show ?thesis
    by (simp add: upsert_def store_ok_def keeps_records_refl)
next
  case (Some a)
  obtain i docs' where a: "a = (i, docs')"
    by (cases a)
  from assms(1) have "unique_result_ids (working s)"
    by (simp add: store_ok_def)
  from write_doc_inv [OF this assms(2) Some [unfolded a]] assms(1) Some a show ?thesis
    by (simp add: upsert_def store_ok_def keeps_records_refl)
qed

lemma submit_inv:
  assumes "store_ok s"
  shows "store_ok (snd (submit_quiz_result L fails req s)) \<and>
         keeps_records (committed s) (committed (snd (submit_quiz_result L fails req s)))"
  using assms upsert_inv [OF assms doc_values_result_id]
  by (auto simp: submit_quiz_result_def Let_def keeps_records_refl
      split: pyval.splits sum.splits option.splits)

lemma run_inv:
  assumes "store_ok s"
  shows "store_ok (run L calls s) \<and> keeps_records (committed s) (committed (run L calls s))"
  using assms
proof (induction calls arbitrary: s)
  case Nil
  then show ?case by (simp add: keeps_records_refl)
next
  case (Cons c calls)
  obtain fails req where c: "c = (fails, req)"
    by (cases c)
  from submit_inv [OF Cons.prems, of L fails req] Cons.IH [of "snd (submit_quiz_result L fails req s)"]
  show ?case
    by (auto simp: c intro: keeps_records_trans)
qed

lemma run_append: "run L (pre @ calls) s = run L calls (run L pre s)"
proof (induction pre arbitrary: s)
  case Nil
  show ?case by simp
next
  case (Cons c pre)
  obtain fails req where c: "c = (fails, req)"
    by (cases c)
  from Cons show ?case
    by (simp add: c)
qed

text \<open>A call that succeeds has written a record, the one found or a new one.\<close>

lemma upsert_success:
  assumes "upsert fails r vals s = (Inr (success_response name rid), s')"
  shows "r = rid \<and>
         (\<exists>i docs. write_doc fails (get_all r (working s)) vals (working s) = Some (i, docs) \<and>
            name = docname i \<and> committed s' = docs)"
proof -
  have neq: "success_response name rid \<noteq> unexpected_error"
    by (simp add: resp_defs)
  from assms neq show ?thesis
    by (auto simp: upsert_def success_response_def split: if_splits option.splits)
qed

lemma submit_success:
  assumes "submit_quiz_result L fails req s = (Inr (success_response name rid), s')"
  shows "\<exists>p vals. load_payload L req = Inr (PDict p) \<and>
           to_int (dict_get p ''result_id'') = Inr (Some rid) \<and>
           doc_values L p rid (dict_get p ''quiz_title'') = Inr vals \<and>
           upsert fails rid vals s = (Inr (success_response name rid), s')"
proof -
  have neq: "success_response name rid \<noteq> required_fields"
    "success_response name rid \<noteq> missing_payload"
    by (simp_all add: resp_defs)
  from assms obtain payload where l: "load_payload L req = Inr payload"
    by (cases "load_payload L req") (auto simp: submit_quiz_result_def)
  from assms l neq(2) obtain p where p: "payload = PDict p"
    by (cases payload) (auto simp: submit_quiz_result_def split: if_splits)
  from assms l p neq obtain r where r: "to_int (dict_get p ''result_id'') = Inr (Some r)"
    by (auto simp: submit_quiz_result_def Let_def split: if_splits sum.splits option.splits)
  from assms l p r neq obtain vals
    where vals: "doc_values L p r (dict_get p ''quiz_title'') = Inr vals"
      and u: "upsert fails r vals s = (Inr (success_response name rid), s')"
    by (auto simp: submit_quiz_result_def Let_def split: if_splits sum.splits)
  from upsert_success [OF u] have "r = rid"
    by simp
  with l p r vals u show ?thesis
    by auto
qed

lemma write_doc_one:
  assumes u: "unique_result_ids docs"
    and r: "map_of (non_null vals) ''result_id'' = Some (PInt rid)"
    and w: "write_doc fails (get_all rid docs) vals docs = Some (i, docs')"
  shows "length (filter (has_result_id rid) docs') = 1 \<and>
         (case get_all rid docs of
            Some j \<Rightarrow> i = j \<and> docs' = docs[j := doc_update (docs ! j) (non_null vals)]
          | None \<Rightarrow> i = length docs \<and> docs' = docs @ [doc_update Map.empty (non_null vals)])"
proof (cases "get_all rid docs")
  case None
  then have none: "filter (has_result_id rid) docs = []"
    by (simp add: get_all_def first_index_None)
  from None w have docs': "i = length docs" "docs' = docs @ [doc_update Map.empty (non_null vals)]"
    by (auto simp: write_doc_def split: if_splits)
  have "length (filter (has_result_id rid) docs') = 1"
    using none has_result_id_update [OF r, of rid Map.empty] by (simp add: docs')
  with None docs' show ?thesis
    by simp
next
  case (Some j)
  then have j: "j < length docs" "has_result_id rid (docs ! j)"
    using first_index_Some [of "has_result_id rid" docs j] by (simp_all add: get_all_def)
  from Some w have docs': "i = j" "docs' = docs[j := doc_update (docs ! j) (non_null vals)]"
    by (auto simp: write_doc_def split: if_splits)
  have same: "has_result_id rid (doc_update (docs ! j) (non_null vals)) = has_result_id rid (docs ! j)"
    using j(2) has_result_id_update [OF r, of rid "docs ! j"] by simp
  have len: "length (filter (has_result_id rid) docs') = length (filter (has_result_id rid) docs)"
    using j(1) same
      length_filter_update [of j docs "has_result_id rid" "doc_update (docs ! j) (non_null vals)"]
    by (simp add: docs')
  from j have "docs ! j \<in> set (filter (has_result_id rid) docs)"
    by simp
  then have "filter (has_result_id rid) docs \<noteq> []"
    by (metis empty_iff list.set(1))
  then have "0 < length (filter (has_result_id rid) docs)"
    by simp
  moreover from u have "length (filter (has_result_id rid) docs) \<le> 1"
    by (simp add: unique_result_ids_def)
  ultimately have "length (filter (has_result_id rid) docs') = 1"
    using len by linarith
  with Some docs' show ?thesis
    by simp
qed

lemma submit_one:
  assumes st: "store_ok s"
    and ok: "submit_quiz_result L fails req s = (Inr (success_response name rid), s')"
  shows "length (filter (has_result_id rid) (committed s')) = 1 \<and>
         (\<exists>p vals.
            load_payload L req = Inr (PDict p) \<and>
            to_int (dict_get p ''result_id'') = Inr (Some rid) \<and>
            doc_values L p rid (dict_get p ''quiz_title'') = Inr vals \<and>
            (case get_all rid (committed s) of
               Some i \<Rightarrow>
                 name = docname i \<and>
                 committed s' = (committed s)[i := doc_update (committed s ! i) (non_null vals)]
             | None \<Rightarrow>
                 name = docname (length (committed s)) \<and>
                 committed s' = committed s @ [doc_update Map.empty (non_null vals)]))"
proof -
  from submit_success [OF ok] obtain p vals
    where l: "load_payload L req = Inr (PDict p)"
      and r: "to_int (dict_get p ''result_id'') = Inr (Some rid)"
      and vals: "doc_values L p rid (dict_get p ''quiz_title'') = Inr vals"
      and u: "upsert fails rid vals s = (Inr (success_response name rid), s')"
    by blast
  from st have w: "working s = committed s" and un: "unique_result_ids (committed s)"
    by (simp_all add: store_ok_def)
  from upsert_success [OF u] obtain i docs
    where wd: "write_doc fails (get_all rid (committed s)) vals (committed s) = Some (i, docs)"
      and n: "name = docname i" and c: "committed s' = docs"
    unfolding w by blast
  from write_doc_one [OF un doc_values_result_id [OF vals] wd]
  have one: "length (filter (has_result_id rid) docs) = 1"
    and shape: "case get_all rid (committed s) of
            Some j \<Rightarrow> i = j \<and> docs = (committed s)[j := doc_update (committed s ! j) (non_null vals)]
          | None \<Rightarrow> i = length (committed s) \<and>
              docs = committed s @ [doc_update Map.empty (non_null vals)]"
    by simp_all
  from shape n c
  have "case get_all rid (committed s) of
          Some i \<Rightarrow>
            name = docname i \<and>
            committed s' = (committed s)[i := doc_update (committed s ! i) (non_null vals)]
        | None \<Rightarrow>
            name = docname (length (committed s)) \<and>
            committed s' = committed s @ [doc_update Map.empty (non_null vals)]"
    by (simp split: option.splits)
  with one c l r vals show ?thesis
    by blast
qed

text \<open>
  C4. Start from a store between two requests that has at most one record for each
  \<^verbatim>\<open>result_id\<close>, the empty store for one, and make any sequence of calls, one after another,
  whatever each one returns or raises and whichever calls to the database fail. At the
  end the store again has at most one record for each \<^verbatim>\<open>result_id\<close>, and every record that
  was there is still there, under its name and with its \<^verbatim>\<open>result_id\<close>: nothing is ever
  deleted. After each call of the sequence that succeeds, exactly one record has the
  coerced \<^verbatim>\<open>result_id\<close> of its payload: where the lookup finds a record, the call returns the
  name of that record, rewrites it in place with the derived values that are not \<^verbatim>\<open>None\<close>
  and leaves the other records and their number as they were; where it finds none, the
  call appends one record with those values and returns its name.
\<close>

theorem one_record_per_result_id:
  assumes "store_ok s"
  shows "store_ok (run L calls s) \<and>
         keeps_records (committed s) (committed (run L calls s)) \<and>
         (\<forall>pre fails req post name rid s'.
            calls = pre @ (fails, req) # post \<and>
            submit_quiz_result L fails req (run L pre s) = (Inr (success_response name rid), s')
            \<longrightarrow>
            length (filter (has_result_id rid) (committed s')) = 1 \<and>
            (\<exists>p vals.
               load_payload L req = Inr (PDict p) \<and>
               to_int (dict_get p ''result_id'') = Inr (Some rid) \<and>
               doc_values L p rid (dict_get p ''quiz_title'') = Inr vals \<and>
               (case get_all rid (committed (run L pre s)) of
                  Some i \<Rightarrow>
                    name = docname i \<and>
                    committed s' =
                      (committed (run L pre s))
                        [i := doc_update (committed (run L pre s) ! i) (non_null vals)]
                | None \<Rightarrow>
                    name = docname (length (committed (run L pre s))) \<and>
                    committed s' =
                      committed (run L pre s) @ [doc_update Map.empty (non_null vals)])))"
proof (intro conjI allI impI)
  from run_inv [OF assms, of L calls]
  show "store_ok (run L calls s)"
    and "keeps_records (committed s) (committed (run L calls s))"
    by simp_all
next
  fix pre fails req post name rid s'
  assume a: "calls = pre @ (fails, req) # post \<and>
    submit_quiz_result L fails req (run L pre s) = (Inr (success_response name rid), s')"
  from run_inv [OF assms, of L pre] have st: "store_ok (run L pre s)"
    by simp
  from a have ok:
    "submit_quiz_result L fails req (run L pre s) = (Inr (success_response name rid), s')"
    by simp
  from submit_one [OF st ok]
  show "length (filter (has_result_id rid) (committed s')) = 1"
    and "\<exists>p vals.
               load_payload L req = Inr (PDict p) \<and>
               to_int (dict_get p ''result_id'') = Inr (Some rid) \<and>
               doc_values L p rid (dict_get p ''quiz_title'') = Inr vals \<and>
               (case get_all rid (committed (run L pre s)) of
                  Some i \<Rightarrow>
                    name = docname i \<and>
                    committed s' =
                      (committed (run L pre s))
                        [i := doc_update (committed (run L pre s) ! i) (non_null vals)]
                | None \<Rightarrow>
                    name = docname (length (committed (run L pre s))) \<and>
                    committed s' =
                      committed (run L pre s) @ [doc_update Map.empty (non_null vals)])"
    by simp_all
qed

text \<open>
  Two submissions for the \<^verbatim>\<open>result_id\<close> 1 to the empty store: the second finds the record
  of the first, returns its name and leaves one record.
\<close>

theorem one_record_per_result_id_witness:
  "store_ok (run sample_lib
     [(\<lambda>op. False, json_request (PDict [(''result_id'', PInt 1), (''quiz_title'', PStr ''Quiz A'')])),
      (\<lambda>op. False, json_request (PDict quiz_b))]
     empty_store) \<and>
   length (filter (has_result_id 1) (committed (run sample_lib
     [(\<lambda>op. False, json_request (PDict [(''result_id'', PInt 1), (''quiz_title'', PStr ''Quiz A'')])),
      (\<lambda>op. False, json_request (PDict quiz_b))]
     empty_store))) = 1"
proof -
  let ?a = "(\<lambda>op. False,
    json_request (PDict [(''result_id'', PInt 1), (''quiz_title'', PStr ''Quiz A'')]))"
  let ?b = "json_request (PDict quiz_b)"
  let ?out = "submit_quiz_result sample_lib (\<lambda>op. False) ?b (run sample_lib [?a] empty_store)"
  have st: "store_ok empty_store"
    by (simp add: store_ok_def empty_store_def unique_result_ids_def)
  have "fst ?out = Inr (success_response (docname 0) 1)"
    by code_simp
  then have ok: "?out = (Inr (success_response (docname 0) 1), snd ?out)"
    by (simp add: prod_eq_iff)
  have sp: "[?a, (\<lambda>op. False, ?b)] = [?a] @ (\<lambda>op. False, ?b) # []"
    by simp
  note main = one_record_per_result_id [OF st, of sample_lib "[?a, (\<lambda>op. False, ?b)]"]
  from main have a: "store_ok (run sample_lib [?a, (\<lambda>op. False, ?b)] empty_store)"
    by (rule conjunct1)
  from main [THEN conjunct2, THEN conjunct2, rule_format, OF conjI [OF sp ok]]
  have "length (filter (has_result_id 1) (committed (snd ?out))) = 1"
    by (rule conjunct1)
  moreover have "run sample_lib [?a, (\<lambda>op. False, ?b)] empty_store = snd ?out"
    by simp
  ultimately show ?thesis
    using a by simp
qed

lemma map_of_non_null:
  "distinct (map fst vals) \<Longrightarrow>
     map_of (non_null vals) k =
       (case map_of vals k of Some v \<Rightarrow> if v \<noteq> PNone then Some v else None | None \<Rightarrow> None)"
proof (induction vals)
  case Nil
  then show ?case by (simp add: non_null_def)
next
  case (Cons kv vals)
  obtain k' v' where kv: "kv = (k', v')"
    by (cases kv)
  from Cons.prems have "k' \<notin> fst ` set vals"
    by (simp add: kv)
  then have "map_of vals k' = None"
    by (simp add: map_of_eq_None_iff)
  with Cons show ?case
    by (auto simp: kv non_null_def split: option.splits)
qed

lemma doc_values_distinct: "doc_values L p rid t = Inr vals \<Longrightarrow> distinct (map fst vals)"
  by (auto simp: doc_values_def bindE_Inr)

lemma doc_update_non_null:
  "distinct (map fst vals) \<Longrightarrow>
     doc_update d (non_null vals) k =
       (case map_of vals k of Some v \<Rightarrow> if v \<noteq> PNone then Some v else d k | None \<Rightarrow> d k)"
  by (simp add: doc_update_def map_add_def map_of_non_null split: option.splits)

text \<open>
  C5. When the call finds a record for the \<^verbatim>\<open>result_id\<close> and succeeds, each field of the
  stored record has the derived value where that is not \<^verbatim>\<open>None\<close>, and its value from
  before where the derived value is \<^verbatim>\<open>None\<close> or the field is not a derived one. The other
  records are as they were.
\<close>

theorem update_keeps_null_fields:
  assumes p: "load_payload L req = Inr (PDict p)"
    and rid: "to_int (dict_get p ''result_id'') = Inr (Some rid)"
    and vals: "doc_values L p rid (dict_get p ''quiz_title'') = Inr vals"
    and found: "get_all rid (working s) = Some i"
    and ok: "submit_quiz_result L fails req s = (Inr (success_response name rid), s')"
  shows "(\<forall>k. (committed s' ! i) k =
            (case map_of vals k of
               Some v \<Rightarrow> if v \<noteq> PNone then Some v else (working s ! i) k
             | None \<Rightarrow> (working s ! i) k)) \<and>
         (\<forall>j. j \<noteq> i \<longrightarrow> committed s' ! j = working s ! j) \<and>
         length (committed s') = length (working s)"
proof -
  have i: "i < length (working s)"
    using found first_index_Some [of "has_result_id rid" "working s" i] by (simp add: get_all_def)
  have neq: "success_response name rid \<noteq> required_fields"
    "success_response name rid \<noteq> unexpected_error"
    "success_response name rid \<noteq> missing_payload"
    by (simp_all add: resp_defs)
  from ok p rid vals neq(1,3) have "upsert fails rid vals s = (Inr (success_response name rid), s')"
    by (auto simp: submit_quiz_result_def Let_def split: if_splits)
  with found neq(2)
  have "committed s' = (working s)[i := doc_update (working s ! i) (non_null vals)]"
    by (auto simp: upsert_def write_doc_def split: if_splits option.splits)
  with i doc_update_non_null [OF doc_values_distinct [OF vals]] show ?thesis
    by simp
qed

lemma doc_values_entries:
  assumes "doc_values L p rid t = Inr vals"
  shows "map_of vals ''quiz_title'' = Some (PStr (py_str L t))"
    and "map_of vals ''score_type'' = Some (dict_get p ''score_type'')"
    and "map_of vals ''raw_payload'' = Some (PStr (json_dumps L False ('','', '':'') (PDict p)))"
  using assms by (auto simp: doc_values_def bindE_Inr)

lemma doc_values_quiz_b:
  "\<exists>vals. doc_values sample_lib quiz_b 1 (dict_get quiz_b ''quiz_title'') = Inr vals"
  by (simp add: doc_values_def bindE_def quiz_b_def dict_get_def to_int_def to_float_def
      is_absent_def py_or_def)

theorem update_keeps_null_fields_witness:
  "(committed (snd (submit_quiz_result sample_lib (\<lambda>op. False) (json_request (PDict quiz_b))
       \<lparr>committed = [quiz_a], working = [quiz_a], error_log = []\<rparr>)) ! 0) ''score_type''
     = Some (PStr ''percentage'') \<and>
   (committed (snd (submit_quiz_result sample_lib (\<lambda>op. False) (json_request (PDict quiz_b))
       \<lparr>committed = [quiz_a], working = [quiz_a], error_log = []\<rparr>)) ! 0) ''quiz_title''
     = Some (PStr ''Quiz B'')"
proof -
  let ?s = "\<lparr>committed = [quiz_a], working = [quiz_a], error_log = []\<rparr>"
  let ?out = "submit_quiz_result sample_lib (\<lambda>op. False) (json_request (PDict quiz_b)) ?s"
  obtain vals where vals: "doc_values sample_lib quiz_b 1 (dict_get quiz_b ''quiz_title'') = Inr vals"
    using doc_values_quiz_b by blast
  have p: "load_payload sample_lib (json_request (PDict quiz_b)) = Inr (PDict quiz_b)"
    by (simp add: load_payload_def json_request_def quiz_b_def)
  have rid: "to_int (dict_get quiz_b ''result_id'') = Inr (Some 1)"
    by (simp add: quiz_b_def dict_get_def to_int_def is_absent_def)
  have found: "get_all 1 (working ?s) = Some 0"
    by (simp add: get_all_def has_result_id_def quiz_a_def)
  have "fst ?out = Inr (success_response (docname 0) 1)"
    using vals p rid found
    by (simp add: submit_quiz_result_def upsert_def write_doc_def quiz_b_def dict_get_def)
  then have ok: "?out = (Inr (success_response (docname 0) 1), snd ?out)"
    by (simp add: prod_eq_iff)
  show ?thesis
    using update_keeps_null_fields [OF p rid vals found ok] doc_values_entries [OF vals]
    by (simp add: quiz_a_def quiz_b_def dict_get_def sample_lib_def)
qed

lemma same_result_id_twice:
  "length (committed (run sample_lib
     [(\<lambda>op. False, json_request (PDict [(''result_id'', PInt 1), (''quiz_title'', PStr ''Quiz A'')])),
      (\<lambda>op. False, json_request (PDict quiz_b))]
     empty_store)) = 1"
  by code_simp

section \<open>The stored payload\<close>

subsection \<open>Integers written and read back\<close>

lemma char_eq_of_char: "c = d \<longleftrightarrow> (of_char c :: nat) = of_char d"
  by simp

lemma is_digit_iff: "is_digit c \<longleftrightarrow> 48 \<le> (of_char c :: nat) \<and> (of_char c :: nat) \<le> 57"
  unfolding is_digit_def using char_eq_of_char [of c] by (simp del: of_char_eq_iff) arith

lemma is_digit_digit_char: "d < 10 \<Longrightarrow> is_digit (digit_char d)"
  by (simp add: is_digit_iff digit_char_def)

lemma of_char_digit_char: "d < 10 \<Longrightarrow> (of_char (digit_char d) :: nat) = 48 + d"
  by (simp add: digit_char_def)

lemma digit_char_eq_0: "d < 10 \<Longrightarrow> digit_char d = CHR ''0'' \<longleftrightarrow> d = 0"
  using char_eq_of_char [of "digit_char d" "CHR ''0''"]
  by (simp add: of_char_digit_char del: of_char_eq_iff)

lemma is_digit_num_char: "is_digit c \<Longrightarrow> is_num_char c"
  by (auto simp: is_digit_def is_num_char_def)

lemma is_digit_not_minus: "is_digit c \<Longrightarrow> c \<noteq> CHR ''-''"
  by (auto simp: is_digit_def)

lemma show_nat_digits: "list_all is_digit (show_nat n)"
  by (induction n rule: show_nat.induct) (subst show_nat.simps, simp add: is_digit_digit_char)

lemma show_nat_not_Nil: "show_nat n \<noteq> []"
  by (subst show_nat.simps) simp

lemma read_nat_snoc: "read_nat (s @ [c]) = read_nat s * 10 + (of_char c - 48)"
  by (simp add: read_nat_def)

lemma read_nat_show_nat: "read_nat (show_nat n) = n"
proof (induction n rule: show_nat.induct)
  case (1 n)
  show ?case
  proof (cases "n < 10")
    case True
    then show ?thesis
      by (subst show_nat.simps) (simp add: read_nat_def of_char_digit_char)
  next
    case False
    with 1 show ?thesis
      by (subst show_nat.simps) (simp add: read_nat_snoc of_char_digit_char)
  qed
qed

lemma show_nat_0: "show_nat 0 = ''0''"
  by code_simp

lemma hd_show_nat: "0 < n \<Longrightarrow> hd (show_nat n) \<noteq> CHR ''0''"
proof (induction n rule: show_nat.induct)
  case (1 n)
  show ?case
  proof (cases "n < 10")
    case True
    with 1(2) show ?thesis
      by (subst show_nat.simps) (simp add: digit_char_eq_0)
  next
    case False
    then have "0 < n div 10" by simp
    with 1 False show ?thesis
      by (subst show_nat.simps) (simp add: show_nat_not_Nil)
  qed
qed

lemma dropWhile_all: "list_all P xs \<Longrightarrow> dropWhile P xs = []"
  by (induction xs) auto

lemma num_int_show_nat: "num_int (show_nat n)"
proof (cases "n = 0")
  case True
  then show ?thesis
    by (simp add: show_nat_0 num_int_def num_frac_def)
next
  case False
  obtain c r where cr: "show_nat n = c # r"
    using show_nat_not_Nil [of n] by (cases "show_nat n") auto
  with show_nat_digits [of n] have d: "is_digit c" "list_all is_digit r"
    by simp_all
  from False hd_show_nat [of n] cr have "c \<noteq> CHR ''0''"
    by simp
  with d show ?thesis
    by (simp add: cr num_int_def dropWhile_all num_frac_def)
qed

lemma json_number_show_int: "json_number (show_int i)"
proof (cases "i < 0")
  case True
  then show ?thesis
    by (simp add: show_int_def json_number_def num_int_show_nat)
next
  case False
  obtain c r where cr: "show_nat (nat i) = c # r"
    using show_nat_not_Nil [of "nat i"] by (cases "show_nat (nat i)") auto
  with show_nat_digits [of "nat i"] have "c \<noteq> CHR ''-''"
    by (simp add: is_digit_not_minus)
  with False cr num_int_show_nat [of "nat i"] show ?thesis
    by (simp add: show_int_def json_number_def)
qed

lemma digits_num_chars: "list_all is_digit s \<Longrightarrow> list_all is_num_char s"
  by (induction s) (auto simp: is_digit_num_char)

lemma digits_not_float: "list_all is_digit s \<Longrightarrow> \<not> is_float_token s"
  by (induction s) (auto simp: is_digit_def is_float_token_def)

lemma is_float_token_Cons: "is_float_token (c # s) \<longleftrightarrow> c \<in> set ''.eE'' \<or> is_float_token s"
  by (simp add: is_float_token_def)

lemma num_chars_show_int: "list_all is_num_char (show_int i)"
  by (simp add: show_int_def digits_num_chars show_nat_digits is_num_char_def)

lemma not_float_show_int: "\<not> is_float_token (show_int i)"
  by (simp add: show_int_def digits_not_float show_nat_digits is_float_token_Cons)

lemma read_int_show_int: "read_int (show_int i) = i"
proof (cases "i < 0")
  case True
  then show ?thesis
    by (simp add: show_int_def read_int_def read_nat_show_nat)
next
  case False
  obtain c r where cr: "show_nat (nat i) = c # r"
    using show_nat_not_Nil [of "nat i"] by (cases "show_nat (nat i)") auto
  with show_nat_digits [of "nat i"] have "c \<noteq> CHR ''-''"
    by (simp add: is_digit_not_minus)
  with False cr read_nat_show_nat [of "nat i"] show ?thesis
    by (simp add: show_int_def read_int_def)
qed

lemma scan_number:
  assumes "list_all is_num_char tok" and "ok_rest rest"
  shows "takeWhile is_num_char (tok @ rest) = tok" and "dropWhile is_num_char (tok @ rest) = rest"
  using assms by (cases rest; simp add: ok_rest_def list_all_iff)+

lemma parse_number_int:
  "ok_rest rest \<Longrightarrow> parse_number L (show_int i @ rest) = Some (PInt i, rest)"
  by (simp add: parse_number_def scan_number num_chars_show_int json_number_show_int
      not_float_show_int read_int_show_int)

subsection \<open>Strings written and read back\<close>

lemma hex_val_hex_char: "d < 16 \<Longrightarrow> hex_val (hex_char d) = Some d"
  by (simp add: hex_val_def hex_char_def Let_def)

lemma hex_val_0: "hex_val CHR ''0'' = Some 0"
  by (simp add: hex_val_def)

lemma unicode_escape_hex:
  "unicode_escape CHR ''0'' CHR ''0'' (hex_char (of_char c div 16)) (hex_char (of_char c mod 16))
     = Some c"
proof -
  have "(of_char c :: nat) < 256"
    by simp
  then have "(of_char c :: nat) div 16 < 16" "(of_char c :: nat) mod 16 < 16"
    by arith+
  then show ?thesis
    by (simp add: unicode_escape_def hex_val_0 hex_val_hex_char)
qed

lemma parse_chars_escape:
  "parse_chars (escape_char False c @ t) = cons_char c (parse_chars t)"
proof -
  consider (special) "c \<in> {dquote, bslash, CHR 0x0A, CHR 0x0D, CHR 0x09, CHR 0x08, CHR 0x0C}"
    | (control) "c \<notin> {dquote, bslash, CHR 0x0A, CHR 0x0D, CHR 0x09, CHR 0x08, CHR 0x0C}"
        "(of_char c :: nat) < 32"
    | (plain) "c \<notin> {dquote, bslash, CHR 0x0A, CHR 0x0D, CHR 0x09, CHR 0x08, CHR 0x0C}"
        "\<not> (of_char c :: nat) < 32"
    by blast
  then show ?thesis
  proof cases
    case special
    then show ?thesis
      by (auto simp: escape_char_def simple_escape_def dquote_def bslash_def)
  next
    case control
    then show ?thesis
      by (simp add: escape_char_def unicode_escape_hex dquote_def bslash_def)
  next
    case plain
    then show ?thesis
      by (simp add: escape_char_def)
  qed
qed

lemma parse_chars_escaped:
  "parse_chars (concat (map (escape_char False) s) @ dquote # rest) = Some (s, rest)"
  by (induction s) (simp_all add: parse_chars_escape cons_char_def)

lemma parse_chars_quote: "parse_chars (tl (quote False s) @ rest) = Some (s, rest)"
  by (simp add: quote_def parse_chars_escaped)

subsection \<open>Dictionaries with each key once\<close>

lemma update_fresh: "k \<notin> fst ` set al \<Longrightarrow> AList.update k v al = al @ [(k, v)]"
  by (induction al) auto

lemma fold_update_distinct:
  "distinct (map fst kvs) \<Longrightarrow> fst ` set acc \<inter> fst ` set kvs = {} \<Longrightarrow>
     fold (\<lambda>(k, v) d. AList.update k v d) kvs acc = acc @ kvs"
proof (induction kvs arbitrary: acc)
  case Nil
  then show ?case by simp
next
  case (Cons kv kvs)
  obtain k v where kv: "kv = (k, v)"
    by (cases kv)
  from Cons.prems have fresh: "k \<notin> fst ` set acc"
    by (auto simp: kv)
  from Cons.prems have "fst ` set (acc @ [(k, v)]) \<inter> fst ` set kvs = {}"
    by (auto simp: kv)
  with Cons.IH [of "acc @ [(k, v)]"] Cons.prems fresh show ?case
    by (simp add: kv update_fresh)
qed

lemma dict_of_distinct: "distinct (map fst kvs) \<Longrightarrow> dict_of kvs = kvs"
  using fold_update_distinct [of kvs "[]"] by (simp add: dict_of_def)

subsection \<open>How a written value begins\<close>

lemma json_number_start:
  "json_number tok \<Longrightarrow> \<exists>c r. tok = c # r \<and> (c = CHR ''-'' \<or> is_digit c)"
  by (cases tok) (auto simp: json_number_def num_int_def is_digit_def split: if_splits)

lemma show_int_start: "\<exists>c r. show_int i = c # r \<and> (c = CHR ''-'' \<or> is_digit c)"
  using json_number_start [OF json_number_show_int] .

lemma dumps_start:
  "json_ok L v \<Longrightarrow> \<exists>c t. json_dumps L ea seps v = c # t \<and> is_value_start c"
proof (cases v)
  case (PInt i)
  with show_int_start [of i] show ?thesis
    by (auto simp: is_value_start_def)
next
  case (PFloat f)
  assume "json_ok L v"
  with PFloat obtain q where "f = Finite q" "json_number (repr_float L f)"
    by (cases f) (auto simp: float_ok_def Let_def)
  with PFloat json_number_start [of "repr_float L f"] show ?thesis
    by (auto simp: is_value_start_def dumps_float_def)
next
  case (PStr s)
  then show ?thesis
    by (simp add: quote_def is_value_start_def)
qed (auto simp: is_value_start_def)

lemma value_start_facts:
  assumes "is_value_start c"
  shows "\<not> is_ws c" "c \<noteq> CHR '']''" "c \<noteq> CHR ''}''"
  using assms by (auto simp: is_value_start_def is_ws_def is_digit_def dquote_def)

lemma skip_ws_start: "is_value_start c \<Longrightarrow> skip_ws (c # t) = c # t"
  by (simp add: skip_ws_def value_start_facts)

lemma ok_rest_simps: "ok_rest (CHR '','' # t)" "ok_rest (CHR '']'' # t)" "ok_rest (CHR ''}'' # t)"
  "ok_rest []"
  by (simp_all add: ok_rest_def is_num_char_def)

lemma skip_ws_simps:
  "skip_ws (CHR '','' # t) = CHR '','' # t" "skip_ws (CHR '']'' # t) = CHR '']'' # t"
  "skip_ws (CHR ''}'' # t) = CHR ''}'' # t" "skip_ws (CHR '':'' # t) = CHR '':'' # t"
  "skip_ws (dquote # t) = dquote # t" "skip_ws [] = []"
  "skip_ws (CHR ''['' # t) = CHR ''['' # t" "skip_ws (CHR ''{'' # t) = CHR ''{'' # t"
  by (simp_all add: skip_ws_def is_ws_def dquote_def)

lemma parse_value_number:
  assumes "tok = c # r" and "c = CHR ''-'' \<or> is_digit c"
  shows "parse_value L (Suc n) (tok @ rest) = parse_number L (tok @ rest)"
  using assms by (auto simp: skip_ws_def is_ws_def is_digit_def dquote_def)

lemma dquote_neq: "dquote \<noteq> CHR ''{''" "dquote \<noteq> CHR ''[''" "dquote \<noteq> CHR ''}''"
  by (simp_all add: dquote_def)

lemma length_dumps_pos: "json_ok L v \<Longrightarrow> 0 < length (json_dumps L ea seps v)"
  using dumps_start [of L v ea seps] by auto

subsection \<open>Numbers have number characters only\<close>

lemma num_chars_split:
  "list_all is_num_char (dropWhile is_digit r) \<Longrightarrow> list_all is_num_char r"
  by (induction r) (auto simp: is_digit_num_char split: if_splits)

lemma all_digits_num_chars: "all_digits s \<Longrightarrow> list_all is_num_char s"
  by (simp add: all_digits_def digits_num_chars)

lemma num_exp_chars:
  assumes "num_exp s"
  shows "list_all is_num_char s"
proof (cases s)
  case Nil
  then show ?thesis by simp
next
  case (Cons e r)
  with assms have e: "is_num_char e"
    by (auto simp: is_num_char_def)
  show ?thesis
  proof (cases r)
    case Nil
    with Cons assms show ?thesis by simp
  next
    case r: (Cons c r')
    show ?thesis
    proof (cases "c = CHR ''+'' \<or> c = CHR ''-''")
      case True
      with assms Cons r have "all_digits r'"
        by auto
      from all_digits_num_chars [OF this] True e show ?thesis
        by (auto simp: Cons r is_num_char_def)
    next
      case False
      with assms Cons r have "all_digits r"
        by simp
      from all_digits_num_chars [OF this] e show ?thesis
        by (simp add: Cons)
    qed
  qed
qed

lemma num_frac_chars:
  assumes "num_frac s"
  shows "list_all is_num_char s"
proof (cases s)
  case Nil
  then show ?thesis by simp
next
  case (Cons c r)
  show ?thesis
  proof (cases "c = CHR ''.''")
    case True
    with assms Cons have "num_exp (dropWhile is_digit r)"
      by (simp add: num_frac_def)
    from num_chars_split [OF num_exp_chars [OF this]] True show ?thesis
      by (simp add: Cons is_num_char_def)
  next
    case False
    with assms Cons have "num_exp s"
      by (simp add: num_frac_def)
    then show ?thesis
      by (rule num_exp_chars)
  qed
qed

lemma num_int_chars:
  assumes "num_int s"
  shows "list_all is_num_char s"
proof (cases s)
  case Nil
  with assms show ?thesis by (simp add: num_int_def)
next
  case (Cons c r)
  show ?thesis
  proof (cases "c = CHR ''0''")
    case True
    with assms Cons have "num_frac r"
      by (simp add: num_int_def)
    from num_frac_chars [OF this] True show ?thesis
      by (simp add: Cons is_num_char_def)
  next
    case False
    with assms Cons have "is_digit c" "num_frac (dropWhile is_digit r)"
      by (simp_all add: num_int_def)
    from num_chars_split [OF num_frac_chars [OF this(2)]] this(1) show ?thesis
      by (simp add: Cons is_digit_num_char)
  qed
qed

lemma json_number_chars:
  assumes "json_number s"
  shows "list_all is_num_char s"
proof (cases s)
  case Nil
  with assms show ?thesis by (simp add: json_number_def)
next
  case (Cons c r)
  show ?thesis
  proof (cases "c = CHR ''-''")
    case True
    with assms Cons have "num_int r"
      by (simp add: json_number_def)
    from num_int_chars [OF this] True show ?thesis
      by (simp add: Cons is_num_char_def)
  next
    case False
    with assms Cons have "num_int s"
      by (simp add: json_number_def)
    then show ?thesis
      by (rule num_int_chars)
  qed
qed

subsection \<open>Values written and read back\<close>

lemma parse_number_float:
  assumes "float_ok L f" and "ok_rest rest"
  shows "parse_number L (repr_float L f @ rest) = Some (PFloat f, rest)"
  using assms json_number_chars [of "repr_float L f"]
  by (simp add: parse_number_def float_ok_def Let_def scan_number)

lemma parse_dumps:
  "\<not> ea \<Longrightarrow> seps = ('','', '':'') \<Longrightarrow> json_ok L v \<Longrightarrow>
     length (json_dumps L ea seps v) \<le> n \<Longrightarrow> ok_rest rest \<Longrightarrow>
     parse_value L n (json_dumps L ea seps v @ rest) = Some (v, rest)"
  "\<not> ea \<Longrightarrow> seps = ('','', '':'') \<Longrightarrow> json_ok_list L xs \<Longrightarrow> xs \<noteq> [] \<Longrightarrow>
     length (dumps_list L ea seps xs) < n \<Longrightarrow>
     parse_elements L n (dumps_list L ea seps xs @ CHR '']'' # rest) = Some (xs, rest)"
  "\<not> ea \<Longrightarrow> seps = ('','', '':'') \<Longrightarrow> json_ok_items L kvs \<Longrightarrow> kvs \<noteq> [] \<Longrightarrow>
     length (dumps_items L ea seps kvs) < n \<Longrightarrow>
     parse_members L n (dumps_items L ea seps kvs @ CHR ''}'' # rest) = Some (kvs, rest)"
proof (induction L ea seps v and L ea seps xs and L ea seps kvs
    arbitrary: n rest and n rest and n rest rule: json_dumps_dumps_list_dumps_items.induct)
  case (1 L ea seps)
  then obtain m where "n = Suc m"
    by (cases n) auto
  then show ?case
    by (simp add: skip_ws_def is_ws_def dquote_def literal_def)
next
  case (2 L ea seps b)
  then obtain m where "n = Suc m"
    by (cases n) (auto split: if_splits)
  then show ?case
    by (cases b) (simp_all add: skip_ws_def is_ws_def dquote_def literal_def)
next
  case (3 L ea seps i)
  obtain c r where cr: "show_int i = c # r" "c = CHR ''-'' \<or> is_digit c"
    using show_int_start by blast
  with 3 obtain m where "n = Suc m"
    by (cases n) auto
  then show ?case
    using 3 parse_value_number [OF cr, of L m rest] by (simp add: parse_number_int)
next
  case (4 L ea seps f)
  then obtain q where f: "f = Finite q" and ok: "float_ok L f"
    by (cases f) auto
  then obtain c r where cr: "repr_float L f = c # r" "c = CHR ''-'' \<or> is_digit c"
    using json_number_start [of "repr_float L f"] by (auto simp: float_ok_def Let_def)
  with 4 f obtain m where "n = Suc m"
    by (cases n) (auto simp: dumps_float_def)
  then show ?case
    using f ok 4 parse_value_number [OF cr, of L m rest]
    by (simp add: dumps_float_def parse_number_float)
next
  case (5 L ea seps s)
  then obtain m where n: "n = Suc m"
    by (cases n) (auto simp: quote_def)
  from 5 have eq: "json_dumps L ea seps (PStr s) @ rest = dquote # tl (quote False s) @ rest"
    by (simp add: quote_def)
  have "parse_value L (Suc m) (dquote # tl (quote False s) @ rest) = Some (PStr s, rest)"
    by (simp add: skip_ws_simps dquote_neq parse_chars_quote)
  then show ?case
    by (simp only: n eq)
next
  case (6 L ea seps xs)
  then obtain m where n: "n = Suc m"
    by (cases n) auto
  show ?case
  proof (cases xs)
    case Nil
    with n show ?thesis
      by (simp add: skip_ws_def is_ws_def)
  next
    case (Cons x ys)
    with 6 have "json_ok L x"
      by simp
    then obtain c t where ct: "json_dumps L ea seps x = c # t" "is_value_start c"
      using dumps_start by blast
    have "\<exists>t'. dumps_list L ea seps xs = c # t'"
      using ct Cons by (cases ys) simp_all
    then obtain t' where t': "dumps_list L ea seps xs = c # t'"
      by blast
    from 6 n Cons have "parse_elements L m (dumps_list L ea seps xs @ CHR '']'' # rest) = Some (xs, rest)"
      by (intro "6.IH") simp_all
    with n t' ct(2) show ?thesis
      by (simp add: skip_ws_simps skip_ws_start value_start_facts)
  qed
next
  case (7 L ea seps kvs)
  then obtain m where n: "n = Suc m"
    by (cases n) auto
  show ?case
  proof (cases kvs)
    case Nil
    with n show ?thesis
      by (simp add: skip_ws_def is_ws_def)
  next
    case (Cons kv ys)
    obtain k v where kv: "kv = (k, v)"
      by (cases kv)
    have "\<exists>t'. dumps_items L ea seps kvs = dquote # t'"
      using Cons kv by (cases ys) (simp_all add: quote_def)
    then obtain t' where t': "dumps_items L ea seps kvs = dquote # t'"
      by blast
    from 7 n Cons have "parse_members L m (dumps_items L ea seps kvs @ CHR ''}'' # rest) = Some (kvs, rest)"
      by (intro "7.IH") simp_all
    with n t' 7 show ?thesis
      by (simp add: skip_ws_def is_ws_def dquote_def dict_of_distinct)
  qed
next
  case (8 L ea seps)
  then show ?case by simp
next
  case (9 L ea seps x)
  then obtain m where n: "n = Suc m"
    by (cases n) auto
  from 9 n have pv: "parse_value L m (json_dumps L ea seps x @ CHR '']'' # rest) =
      Some (x, CHR '']'' # rest)"
    by (intro "9.IH") (simp_all add: ok_rest_simps)
  have "parse_elements L (Suc m) (json_dumps L ea seps x @ CHR '']'' # rest) = Some ([x], rest)"
    by (simp add: skip_ws_simps pv)
  then show ?case
    by (simp add: n)
next
  case (10 L ea seps x y xs)
  then obtain m where n: "n = Suc m"
    by (cases n) auto
  have pos: "0 < length (json_dumps L ea seps x)"
    using "10.prems"(3) by (intro length_dumps_pos) simp
  let ?tail = "dumps_list L ea seps (y # xs) @ CHR '']'' # rest"
  from 10 n have pv: "parse_value L m (json_dumps L ea seps x @ CHR '','' # ?tail) =
      Some (x, CHR '','' # ?tail)"
    by (intro "10.IH") (simp_all add: ok_rest_simps)
  from 10 n pos have pe: "parse_elements L m ?tail = Some (y # xs, rest)"
    by (intro "10.IH") simp_all
  from 10 have eq: "dumps_list L ea seps (x # y # xs) @ CHR '']'' # rest =
      json_dumps L ea seps x @ CHR '','' # ?tail"
    by simp
  have "parse_elements L (Suc m) (json_dumps L ea seps x @ CHR '','' # ?tail) =
      Some (x # y # xs, rest)"
    by (simp add: skip_ws_simps pv pe)
  then show ?case
    by (simp only: n eq)
next
  case (11 L ea seps)
  then show ?case by simp
next
  case (12 L ea seps k v)
  then obtain m where n: "n = Suc m"
    by (cases n) auto
  from 12 n have pv: "parse_value L m (json_dumps L ea seps v @ CHR ''}'' # rest) =
      Some (v, CHR ''}'' # rest)"
    by (intro "12.IH") (simp_all add: ok_rest_simps)
  from 12 have eq: "dumps_items L ea seps [(k, v)] @ CHR ''}'' # rest =
      dquote # tl (quote False k) @ CHR '':'' # json_dumps L ea seps v @ CHR ''}'' # rest"
    by (simp add: quote_def)
  have "parse_members L (Suc m)
      (dquote # tl (quote False k) @ CHR '':'' # json_dumps L ea seps v @ CHR ''}'' # rest) =
      Some ([(k, v)], rest)"
    by (simp add: skip_ws_simps parse_chars_quote pv)
  then show ?case
    by (simp only: n eq)
next
  case (13 L ea seps k v kv kvs)
  then obtain m where n: "n = Suc m"
    by (cases n) auto
  have pos: "0 < length (json_dumps L ea seps v)"
    using "13.prems"(3) by (intro length_dumps_pos) simp
  let ?tail = "dumps_items L ea seps (kv # kvs) @ CHR ''}'' # rest"
  from 13 n have pv: "parse_value L m (json_dumps L ea seps v @ CHR '','' # ?tail) =
      Some (v, CHR '','' # ?tail)"
    by (intro "13.IH") (simp_all add: ok_rest_simps)
  from 13 n pos have pm: "parse_members L m ?tail = Some (kv # kvs, rest)"
    by (intro "13.IH") simp_all
  from 13 have eq: "dumps_items L ea seps ((k, v) # kv # kvs) @ CHR ''}'' # rest =
      dquote # tl (quote False k) @ CHR '':'' # json_dumps L ea seps v @ CHR '','' # ?tail"
    by (simp add: quote_def)
  have "parse_members L (Suc m)
      (dquote # tl (quote False k) @ CHR '':'' # json_dumps L ea seps v @ CHR '','' # ?tail) =
      Some ((k, v) # kv # kvs, rest)"
    by (simp add: skip_ws_simps parse_chars_quote pv pm)
  then show ?case
    by (simp only: n eq)
qed

lemma json_parse_dumps:
  assumes "json_ok L v"
  shows "json_parse L (json_dumps L False ('','', '':'') v) = Some v"
  using parse_dumps(1) [of False "('','', '':'')" L v
      "length (json_dumps L False ('','', '':'') v)" "[]"] assms
  by (simp add: json_parse_def ok_rest_simps skip_ws_simps)

subsection \<open>The written text is compact\<close>

lemma scan_plain:
  "list_all (\<lambda>c. \<not> is_ws c \<and> c \<noteq> dquote) s \<Longrightarrow> scan Outside (s @ rest) = scan Outside rest"
  by (induction s) simp_all

lemma num_char_plain: "is_num_char c \<Longrightarrow> \<not> is_ws c \<and> c \<noteq> dquote"
  by (auto simp: is_num_char_def is_ws_def dquote_def)

lemma scan_number_text:
  "list_all is_num_char s \<Longrightarrow> scan Outside (s @ rest) = scan Outside rest"
  by (rule scan_plain) (auto simp: list_all_iff num_char_plain)

lemma hex_char_plain: "d < 16 \<Longrightarrow> hex_char d \<noteq> dquote \<and> hex_char d \<noteq> bslash"
  unfolding char_eq_of_char [of "hex_char d"]
  by (simp add: hex_char_def dquote_def bslash_def)

lemma scan_escape_char: "scan Inside (escape_char False c @ t) = scan Inside t"
proof -
  have "of_char c div 16 < (16::nat)" if "(of_char c :: nat) < 32"
    using that by simp
  then show ?thesis
    using hex_char_plain [of "of_char c div 16"] hex_char_plain [of "of_char c mod 16"]
    by (simp add: escape_char_def dquote_def bslash_def)
qed

lemma scan_escaped:
  "scan Inside (concat (map (escape_char False) s) @ dquote # rest) = scan Outside rest"
  by (induction s) (simp_all add: scan_escape_char)

lemma is_ws_dquote: "\<not> is_ws dquote"
  by (simp add: is_ws_def dquote_def)

lemma scan_quote: "scan Outside (quote False s @ rest) = scan Outside rest"
  by (simp add: quote_def is_ws_dquote scan_escaped)

lemma scan_dumps:
  "\<not> ea \<Longrightarrow> seps = ('','', '':'') \<Longrightarrow> json_ok L v \<Longrightarrow>
     scan Outside (json_dumps L ea seps v @ rest) = scan Outside rest"
  "\<not> ea \<Longrightarrow> seps = ('','', '':'') \<Longrightarrow> json_ok_list L xs \<Longrightarrow>
     scan Outside (dumps_list L ea seps xs @ rest) = scan Outside rest"
  "\<not> ea \<Longrightarrow> seps = ('','', '':'') \<Longrightarrow> json_ok_items L kvs \<Longrightarrow>
     scan Outside (dumps_items L ea seps kvs @ rest) = scan Outside rest"
proof (induction L ea seps v and L ea seps xs and L ea seps kvs
    arbitrary: rest and rest and rest rule: json_dumps_dumps_list_dumps_items.induct)
  case (1 L ea seps)
  show ?case
    by (simp add: is_ws_def dquote_def)
next
  case (2 L ea seps b)
  show ?case
    by (simp add: is_ws_def dquote_def)
next
  case (3 L ea seps i)
  show ?case
    by (simp add: scan_number_text num_chars_show_int)
next
  case (4 L ea seps f)
  then obtain q where f: "f = Finite q" and ok: "float_ok L f"
    by (cases f) auto
  from ok have "list_all is_num_char (repr_float L f)"
    by (intro json_number_chars) (simp add: float_ok_def Let_def)
  with f show ?case
    by (simp add: dumps_float_def scan_number_text)
next
  case (5 L ea seps s)
  then show ?case
    by (simp add: scan_quote)
next
  case (6 L ea seps xs)
  then have "scan Outside (dumps_list L ea seps xs @ CHR '']'' # rest) = scan Outside (CHR '']'' # rest)"
    by (intro "6.IH") simp_all
  then show ?case
    by (simp add: is_ws_def dquote_def)
next
  case (7 L ea seps kvs)
  then have "scan Outside (dumps_items L ea seps kvs @ CHR ''}'' # rest) = scan Outside (CHR ''}'' # rest)"
    by (intro "7.IH") simp_all
  then show ?case
    by (simp add: is_ws_def dquote_def)
next
  case (8 L ea seps)
  show ?case by simp
next
  case (9 L ea seps x)
  then show ?case by simp
next
  case (10 L ea seps x y xs)
  from 10 have a: "scan Outside (json_dumps L ea seps x @ CHR '','' # dumps_list L ea seps (y # xs) @ rest)
      = scan Outside (CHR '','' # dumps_list L ea seps (y # xs) @ rest)"
    by (intro "10.IH"(1)) simp_all
  from 10 have b: "scan Outside (dumps_list L ea seps (y # xs) @ rest) = scan Outside rest"
    by (intro "10.IH"(2)) simp_all
  from 10 have eq: "dumps_list L ea seps (x # y # xs) @ rest
      = json_dumps L ea seps x @ CHR '','' # dumps_list L ea seps (y # xs) @ rest"
    by simp
  show ?case
    unfolding eq a using b by (simp add: is_ws_def dquote_def)
next
  case (11 L ea seps)
  show ?case by simp
next
  case (12 L ea seps k v)
  from 12 have a: "scan Outside (json_dumps L ea seps v @ rest) = scan Outside rest"
    by (intro "12.IH") simp_all
  from 12 have eq: "dumps_items L ea seps [(k, v)] @ rest
      = quote False k @ CHR '':'' # json_dumps L ea seps v @ rest"
    by simp
  show ?case
    unfolding eq scan_quote using a by (simp add: is_ws_def dquote_def)
next
  case (13 L ea seps k v kv kvs)
  from 13 have a: "scan Outside (json_dumps L ea seps v @ CHR '','' # dumps_items L ea seps (kv # kvs) @ rest)
      = scan Outside (CHR '','' # dumps_items L ea seps (kv # kvs) @ rest)"
    by (intro "13.IH"(1)) simp_all
  from 13 have b: "scan Outside (dumps_items L ea seps (kv # kvs) @ rest) = scan Outside rest"
    by (intro "13.IH"(2)) simp_all
  from 13 have eq: "dumps_items L ea seps ((k, v) # kv # kvs) @ rest
      = quote False k @ CHR '':'' # json_dumps L ea seps v @ CHR '','' # dumps_items L ea seps (kv # kvs) @ rest"
    by simp
  have c: "scan Outside (CHR '':'' # t) = scan Outside t" "scan Outside (CHR '','' # t) = scan Outside t" for t
    by (simp_all add: is_ws_def dquote_def)
  show ?case
    unfolding eq scan_quote c a by (rule b)
qed

lemma compact_dumps:
  assumes "json_ok L v"
  shows "compact (json_dumps L False ('','', '':'') v)"
  using scan_dumps(1) [of False "('','', '':'')" L v "[]"] assms
  by (simp add: compact_def)

text \<open>The same value written with the separators that \<^verbatim>\<open>json.dumps\<close> takes by default is not.\<close>

lemma default_separators_not_compact:
  "\<not> compact (json_dumps L False ('', '', '': '') (PDict [(''a'', PInt 1)]))"
  by (simp add: compact_def quote_def escape_char_def dquote_def bslash_def is_ws_def)

subsection \<open>The payload in the stored record\<close>

lemma write_doc_Some:
  assumes "write_doc fails (get_all rid docs) vals docs = Some (i, docs')"
  shows "i < length docs' \<and> (\<exists>d. docs' ! i = doc_update d (non_null vals))"
proof (cases "get_all rid docs")
  case None
  with assms show ?thesis
    by (auto simp: write_doc_def split: if_splits)
next
  case (Some j)
  then have "j < length docs"
    using first_index_Some [of "has_result_id rid" docs j] by (simp add: get_all_def)
  with Some assms show ?thesis
    by (auto simp: write_doc_def split: if_splits)
qed

text \<open>
  C6, as the code has it. When a call succeeds on a payload whose floats are all finite,
  the stored \<^verbatim>\<open>raw_payload\<close> is the payload written with the separators \<^verbatim>\<open>,\<close> and \<^verbatim>\<open>:\<close>;
  this text is compact, with no white space outside its strings, it is JSON, and parsing
  it gives the payload back. (Strings are of code points below U+0100 throughout.)
\<close>

theorem raw_payload_round_trip:
  assumes ok: "submit_quiz_result L fails req s = (Inr (success_response name rid), s')"
    and p: "load_payload L req = Inr payload"
    and wf: "json_ok L payload"
  shows "\<exists>i raw. name = docname i \<and> i < length (committed s') \<and>
           (committed s' ! i) ''raw_payload'' = Some (PStr raw) \<and>
           raw = json_dumps L False ('','', '':'') payload \<and>
           compact raw \<and>
           json_parse L raw = Some payload"
proof -
  from submit_success [OF ok] p obtain d vals
    where d: "payload = PDict d"
      and vals: "doc_values L d rid (dict_get d ''quiz_title'') = Inr vals"
      and up: "upsert fails rid vals s = (Inr (success_response name rid), s')"
    by auto
  from upsert_success [OF up] obtain i docs
    where w: "write_doc fails (get_all rid (working s)) vals (working s) = Some (i, docs)"
      and name: "name = docname i" and s': "committed s' = docs"
    by blast
  from write_doc_Some [OF w] obtain old where
    i: "i < length docs" and old: "docs ! i = doc_update old (non_null vals)"
    by blast
  let ?raw = "json_dumps L False ('','', '':'') payload"
  have "(docs ! i) ''raw_payload'' = Some (PStr ?raw)"
    using doc_update_non_null [OF doc_values_distinct [OF vals], of old "''raw_payload''"]
      doc_values_entries(3) [OF vals]
    by (simp add: old d)
  moreover have "json_parse L ?raw = Some payload"
    using wf by (rule json_parse_dumps)
  moreover have "compact ?raw"
    using wf by (rule compact_dumps)
  ultimately show ?thesis
    using name i s' by auto
qed

theorem raw_payload_round_trip_witness:
  "\<exists>i raw. ''0'' = docname i \<and>
     i < length (committed (snd (submit_quiz_result sample_lib (\<lambda>op. False)
           (json_request (PDict quiz_d)) empty_store))) \<and>
     (committed (snd (submit_quiz_result sample_lib (\<lambda>op. False)
           (json_request (PDict quiz_d)) empty_store)) ! i) ''raw_payload'' = Some (PStr raw) \<and>
     raw = json_dumps sample_lib False ('','', '':'') (PDict quiz_d) \<and>
     compact raw \<and>
     json_parse sample_lib raw = Some (PDict quiz_d)"
proof -
  let ?out = "submit_quiz_result sample_lib (\<lambda>op. False) (json_request (PDict quiz_d)) empty_store"
  have p: "load_payload sample_lib (json_request (PDict quiz_d)) = Inr (PDict quiz_d)"
    by (simp add: load_payload_def json_request_def quiz_d_def)
  have "fst ?out = Inr (success_response ''0'' 7)"
    by code_simp
  then have ok: "?out = (Inr (success_response ''0'' 7), snd ?out)"
    by (simp add: prod_eq_iff)
  have wf: "json_ok sample_lib (PDict quiz_d)"
    by code_simp
  from raw_payload_round_trip [OF ok p wf] show ?thesis .
qed

text \<open>The words for floats that are not finite are not JSON, whatever the library.\<close>

lemma non_finite_not_json:
  "json_parse L ''Infinity'' = None" "json_parse L ''-Infinity'' = None"
  "json_parse L ''NaN'' = None"
  by (simp_all add: json_parse_def skip_ws_def is_ws_def dquote_def parse_number_def
      is_num_char_def json_number_def num_int_def eval_nat_numeral)

text \<open>
  The claim as written fails: the call succeeds on a payload with an infinite float, as
  the body \<^verbatim>\<open>{"result_id": 1, "quiz_title": "Quiz A", "extra": 1e999}\<close> gives, and the
  stored \<^verbatim>\<open>raw_payload\<close> has the word \<^verbatim>\<open>Infinity\<close> in it, which is not JSON.
\<close>

theorem raw_payload_infinity_not_json:
  "fst (submit_quiz_result sample_lib (\<lambda>op. False) (json_request (PDict quiz_c)) empty_store)
     = Inr (success_response ''0'' 1) \<and>
   (committed (snd (submit_quiz_result sample_lib (\<lambda>op. False) (json_request (PDict quiz_c))
      empty_store)) ! 0) ''raw_payload''
     = Some (PStr (json_dumps sample_lib False ('','', '':'') (PDict quiz_c))) \<and>
   json_parse sample_lib (json_dumps sample_lib False ('','', '':'') (PDict quiz_c)) = None"
  by code_simp

end
